theory Spec2Isabelle
  imports Main "HOL-Library.Word"
begin

section \<open>Data model of the engine\<close>

text \<open>
  The engine of \<^verbatim>\<open>engine/engine_impl.go\<close> drives four collaborators: the
  provisioning client (\<^verbatim>\<open>platform\<close>), the remote shell (\<^verbatim>\<open>ssh\<close>), the
  file transfer client (\<^verbatim>\<open>sftp\<close>) and the logger. Go strings and byte slices
  are byte sequences, modelled as \<^typ>\<open>string\<close>. The Go \<^verbatim>\<open>int\<close> of machine
  identifiers and exit codes is only compared and copied, never computed with, and is
  modelled as \<^typ>\<open>int\<close>; the \<^verbatim>\<open>uint32\<close> of file modes is a 32-bit word.
\<close>

type_synonym bytes = string
type_synonym mode = "32 word"

text \<open>Go \<^verbatim>\<open>error\<close> values. A nil error is \<open>None :: err option\<close>.
  \<open>ExitError n\<close> is an \<^verbatim>\<open>*ssh.ExitError\<close> whose \<^verbatim>\<open>ExitStatus()\<close> is \<open>n\<close>;
  \<open>Canceled\<close> and \<open>DeadlineExceeded\<close> are the two errors of package
  \<^verbatim>\<open>context\<close>.\<close>

datatype err = Canceled | DeadlineExceeded | ExitError int | OtherError string

record File =
  File_Path :: string
  File_Mode :: mode
  File_Data :: bytes
  File_IsDir :: bool

record Secret =
  Secret_Env :: string
  Secret_Data :: bytes

record Server =
  Server_Image :: string
  Server_Name :: string
  Server_Region :: string
  Server_Size :: string
  Server_User :: string

record Platform =
  Platform_OS :: string

record Spec =
  Spec_Token :: string
  Spec_Server :: Server
  Spec_Root :: string
  Spec_Platform :: Platform
  Spec_Files :: "File list"
  Spec_id :: int
  Spec_ip :: string

text \<open>A Go \<^verbatim>\<open>map[string]string\<close> is given by its entries.\<close>

record Step =
  Step_Command :: string
  Step_Args :: "string list"
  Step_WorkingDir :: string
  Step_Envs :: "(string \<times> string) list"
  Step_Secrets :: "Secret list"
  Step_Files :: "File list"

record State =
  ExitCode :: int
  Exited :: bool
  OOMKilled :: bool

record engine =
  privatekey :: string
  publickey :: string
  fingerprint :: string

subsection \<open>Arguments and results of the provisioning collaborator\<close>

record RegisterArgs =
  Reg_Fingerprint :: string
  Reg_Name :: string
  Reg_Data :: string
  Reg_Token :: string

record ProvisionArgs =
  Prov_Key :: string
  Prov_Image :: string
  Prov_Name :: string
  Prov_Region :: string
  Prov_Size :: string
  Prov_Token :: string

record DestroyArgs =
  Destroy_ID :: int
  Destroy_IP :: string
  Destroy_Token :: string

record Instance =
  Instance_ID :: int
  Instance_IP :: string

section \<open>Go standard library functions used by the engine\<close>

text \<open>\<^verbatim>\<open>strings.HasSuffix(s, suffix)\<close> is
  \<^verbatim>\<open>len(s) >= len(suffix) && s[len(s)-len(suffix):] == suffix\<close>.\<close>

definition HasSuffix :: "string \<Rightarrow> string \<Rightarrow> bool" where
  "HasSuffix s suffix \<longleftrightarrow>
     length suffix \<le> length s \<and> drop (length s - length suffix) s = suffix"

text \<open>\<^verbatim>\<open>strings.Join(elems, sep)\<close>: the empty string for no element, the element
  itself for one, otherwise the first element followed by \<open>sep\<close> and the next element
  for each further one.\<close>

fun strings_Join :: "string list \<Rightarrow> string \<Rightarrow> string" where
  "strings_Join [] sep = []"
| "strings_Join [e] sep = e"
| "strings_Join (e # es) sep = e @ concat (map (\<lambda>s. sep @ s) es)"

section \<open>Script generator\<close>

text \<open>The three writers of the script generator that \<^verbatim>\<open>Run\<close> calls,
  \<^verbatim>\<open>writeWorkdir\<close>, \<^verbatim>\<open>writeSecrets\<close> and \<^verbatim>\<open>writeEnviron\<close>, are not among the
  sources; only their tests are. Each is handed the buffer and appends to it, so each is
  taken as a parameter of the model: a function that gives the bytes appended. What is
  proved about \<^verbatim>\<open>Run\<close> holds for any three such functions.\<close>

record scripts =
  writeWorkdir :: "string \<Rightarrow> bytes"
  writeSecrets :: "string \<Rightarrow> Secret list \<Rightarrow> bytes"
  writeEnviron :: "string \<Rightarrow> (string \<times> string) list \<Rightarrow> bytes"

section \<open>The collaborators as an environment\<close>

text \<open>
  Every call of a collaborator is recorded, with its arguments and its answer, in a
  trace; the answer is given by the environment \<open>world\<close> as a function of everything
  that happened before (the state \<open>sys\<close>: the trace so far and the current instant).
  Instants and durations are Go's \<^verbatim>\<open>time.Duration\<close> unit, nanoseconds. A dial and
  a remote command are recorded with the instant at which they start and the time
  they take.
\<close>

type_synonym client = nat

text \<open>The pair \<^verbatim>\<open>(*ssh.Client, error)\<close> of a dial: a connection and a nil error, or an
  error, possibly with a connection object.\<close>

datatype dial_result = Connected client | DialFailed "client option" err

datatype level = DebugLevel | TraceLevel | ErrorLevel

text \<open>How the \<^verbatim>\<open>select\<close> of \<^verbatim>\<open>Run\<close> ended: the remote command sent its result
  on the channel \<^verbatim>\<open>done\<close>, or the context was done first.\<close>

datatype run_outcome = RunDone "err option" | RunCancelled

datatype event =
    EvRegisterKey RegisterArgs "err option"
  | EvProvision ProvisionArgs Instance "err option"
  | EvDestroy DestroyArgs "err option"
  | EvDial nat nat string string dial_result
  | EvClientClose client
  | EvWait nat
  | EvSftpNewClient client "err option"
  | EvSftpClose
  | EvMkdirAll string "err option"
  | EvChmod string mode "err option"
  | EvCreate string "err option"
  | EvWrite string bytes "err option"
  | EvFileChmod string mode "err option"
  | EvFileClose string
  | EvNewSession "err option"
  | EvSessionClose
  | EvSessionRun nat nat string run_outcome
  | EvSignalKill "err option"
  | EvLog level string

record sys =
  clock :: nat
  events :: "event list"

text \<open>A \<^verbatim>\<open>context.Context\<close> as the engine sees it: the instant at which its
  \<^verbatim>\<open>Done\<close> channel is closed (\<open>None\<close>: never), and the error \<^verbatim>\<open>Err()\<close>
  reports from then on.\<close>

record Context =
  ctx_Done :: "nat option"
  ctx_Err :: err

text \<open>A context made by \<^verbatim>\<open>context.WithTimeout\<close>: its \<^verbatim>\<open>Done\<close> channel is
  closed at a known instant.\<close>

record timerCtx =
  tc_Done :: nat
  tc_Err :: err

record world =
  w_RegisterKey :: "sys \<Rightarrow> Context \<Rightarrow> RegisterArgs \<Rightarrow> err option"
  w_Provision :: "sys \<Rightarrow> Context \<Rightarrow> ProvisionArgs \<Rightarrow> Instance \<times> err option"
  w_Destroy :: "sys \<Rightarrow> Context \<Rightarrow> DestroyArgs \<Rightarrow> err option"
  w_ParsePrivateKey :: "string \<Rightarrow> err option"
  w_sshDial :: "sys \<Rightarrow> string \<Rightarrow> string \<Rightarrow> string \<Rightarrow> dial_result \<times> nat"
  w_sftpNewClient :: "sys \<Rightarrow> client \<Rightarrow> err option"
  w_MkdirAll :: "sys \<Rightarrow> string \<Rightarrow> err option"
  w_Chmod :: "sys \<Rightarrow> string \<Rightarrow> mode \<Rightarrow> err option"
  w_Create :: "sys \<Rightarrow> string \<Rightarrow> err option"
  w_Write :: "sys \<Rightarrow> string \<Rightarrow> bytes \<Rightarrow> err option"
  w_FileChmod :: "sys \<Rightarrow> string \<Rightarrow> mode \<Rightarrow> err option"
  w_NewSession :: "sys \<Rightarrow> client \<Rightarrow> err option"
  w_SessionRun :: "sys \<Rightarrow> string \<Rightarrow> err option \<times> nat"
  w_Signal :: "sys \<Rightarrow> err option"

definition emit :: "event \<Rightarrow> sys \<Rightarrow> sys" where
  "emit ev s = s\<lparr>events := events s @ [ev]\<rparr>"

definition advance :: "nat \<Rightarrow> sys \<Rightarrow> sys" where
  "advance d s = s\<lparr>clock := clock s + d\<rparr>"

text \<open>The logger is observational: a call leaves its level and message in the trace.\<close>

definition logger :: "level \<Rightarrow> string \<Rightarrow> sys \<Rightarrow> sys" where
  "logger lvl msg s = emit (EvLog lvl msg) s"

definition time_Second :: nat where
  "time_Second = 1000000000"

definition time_Minute :: nat where
  "time_Minute = 60 * time_Second"

definition networkTimeout :: nat where
  "networkTimeout = time_Minute * 10"

text \<open>\<^verbatim>\<open>context.WithTimeout(parent, timeout)\<close> called at instant \<open>now\<close>: the child is
  done when the parent is, or when the timer fires, whichever is first; it reports the
  parent's error in the first case and \<^verbatim>\<open>DeadlineExceeded\<close> in the second.\<close>

definition WithTimeout :: "Context \<Rightarrow> nat \<Rightarrow> nat \<Rightarrow> timerCtx" where
  "WithTimeout parent timeout now =
     (case ctx_Done parent of
        None \<Rightarrow> \<lparr>tc_Done = now + timeout, tc_Err = DeadlineExceeded\<rparr>
      | Some d \<Rightarrow>
          if d \<le> now + timeout then \<lparr>tc_Done = d, tc_Err = ctx_Err parent\<rparr>
          else \<lparr>tc_Done = now + timeout, tc_Err = DeadlineExceeded\<rparr>)"

text \<open>Whether \<^verbatim>\<open>ctx.Done()\<close> is closed at instant \<open>t\<close>.\<close>

definition ctx_done_by :: "Context \<Rightarrow> nat \<Rightarrow> bool" where
  "ctx_done_by ctx t = (case ctx_Done ctx of None \<Rightarrow> False | Some d \<Rightarrow> d \<le> t)"

section \<open>Connection manager\<close>

text \<open>\<^verbatim>\<open>dial\<close>: the address gets \<^verbatim>\<open>:22\<close> appended unless it ends in it, the key is
  parsed, and the server is dialed. The dial takes the time the environment says.\<close>

definition dial :: "world \<Rightarrow> string \<Rightarrow> string \<Rightarrow> string \<Rightarrow> sys \<Rightarrow> dial_result \<times> sys" where
  "dial w server username pkey s =
     (let server' = (if \<not> HasSuffix server '':22'' then server @ '':22'' else server) in
      case w_ParsePrivateKey w pkey of
        Some e \<Rightarrow> (DialFailed None e, s)
      | None \<Rightarrow>
          (case w_sshDial w s server' username pkey of
             (r, d) \<Rightarrow> (r, advance d (emit (EvDial (clock s) d server' username r) s))))"

definition client_Close :: "client \<Rightarrow> sys \<Rightarrow> sys" where
  "client_Close c s = emit (EvClientClose c) s"

text \<open>The loop of \<^verbatim>\<open>dialRetry\<close>, under the child context \<open>tc\<close>. The first
  \<^verbatim>\<open>select\<close> has a default branch: it returns when the context is done at this
  instant. The second one waits for the context or for ten seconds; a context done at
  the very instant the timer fires is taken as the context's branch (the other branch
  would return the same error at the next check).\<close>

function dialRetry_loop ::
  "world \<Rightarrow> timerCtx \<Rightarrow> string \<Rightarrow> string \<Rightarrow> string \<Rightarrow> nat \<Rightarrow> sys \<Rightarrow> dial_result \<times> sys" where
  "dialRetry_loop w tc server username pkey i s =
     (if tc_Done tc \<le> clock s then (DialFailed None (tc_Err tc), s)
      else
        case dial w server username pkey (logger DebugLevel ''dialing the vm'' s) of
          (Connected c, s2) \<Rightarrow> (Connected c, s2)
        | (DialFailed c e, s2) \<Rightarrow>
            (let s3 = logger TraceLevel ''failed to re-dial vm'' s2;
                 s4 = (case c of Some cl \<Rightarrow> client_Close cl s3 | None \<Rightarrow> s3)
             in if tc_Done tc \<le> clock s4 + time_Second * 10
                then (DialFailed None (tc_Err tc),
                      emit (EvWait (tc_Done tc - clock s4)) s4\<lparr>clock := max (clock s4) (tc_Done tc)\<rparr>)
                else dialRetry_loop w tc server username pkey (i + 1)
                       (advance (time_Second * 10) (emit (EvWait (time_Second * 10)) s4))))"
  by pat_completeness auto

lemma dial_clock: "dial w server username pkey s = (r, s') \<Longrightarrow> clock s \<le> clock s'"
  by (auto simp: dial_def Let_def advance_def emit_def split: option.splits prod.splits)

termination dialRetry_loop
proof (relation "measure (\<lambda>(w, tc, server, username, pkey, i, s). tc_Done tc - clock s)", goal_cases)
  case 1
  show ?case by simp
next
  case (2 w tc server username pkey i s x y c e s3 s4)
  from 2(2) have "clock (logger DebugLevel ''dialing the vm'' s) \<le> clock y"
    by (metis dial_clock)
  then have "clock s \<le> clock y"
    by (simp add: logger_def emit_def)
  moreover have "clock s4 = clock y"
    using 2 by (simp add: logger_def emit_def client_Close_def split: option.splits)
  ultimately show ?case
    using 2 by (simp add: advance_def emit_def time_Second_def)
qed

text \<open>\<^verbatim>\<open>dialRetry\<close>: one dial at once; when it fails, the loop under a child context
  with the network timeout, made at the instant the first dial has failed.\<close>

definition dialRetry ::
  "world \<Rightarrow> Context \<Rightarrow> string \<Rightarrow> string \<Rightarrow> string \<Rightarrow> sys \<Rightarrow> dial_result \<times> sys" where
  "dialRetry w ctx server username pkey s =
     (case dial w server username pkey s of
        (Connected c, s1) \<Rightarrow> (Connected c, s1)
      | (DialFailed c e, s1) \<Rightarrow>
          dialRetry_loop w (WithTimeout ctx networkTimeout (clock s1)) server username pkey 1 s1)"

section \<open>File stager\<close>


text \<open>\<^verbatim>\<open>upload\<close>: \<^verbatim>\<open>Create\<close>, then \<^verbatim>\<open>Write\<close>, then \<^verbatim>\<open>Chmod\<close> on the file; the
  deferred \<^verbatim>\<open>Close\<close> runs on every path that has created the file.\<close>

definition upload :: "world \<Rightarrow> string \<Rightarrow> bytes \<Rightarrow> mode \<Rightarrow> sys \<Rightarrow> err option \<times> sys" where
  "upload w path data m s =
     (let r = w_Create w s path; s1 = emit (EvCreate path r) s in
      case r of
        Some e \<Rightarrow> (Some e, s1)
      | None \<Rightarrow>
          (let r2 = w_Write w s1 path data; s2 = emit (EvWrite path data r2) s1 in
           case r2 of
             Some e \<Rightarrow> (Some e, emit (EvFileClose path) s2)
           | None \<Rightarrow>
               (let r3 = w_FileChmod w s2 path m; s3 = emit (EvFileChmod path m r3) s2 in
                case r3 of
                  Some e \<Rightarrow> (Some e, emit (EvFileClose path) s3)
                | None \<Rightarrow> (None, emit (EvFileClose path) s3))))"

section \<open>Engine\<close>

subsection \<open>Setup\<close>






subsection \<open>Destroy\<close>

definition Destroy :: "world \<Rightarrow> Context \<Rightarrow> Spec \<Rightarrow> sys \<Rightarrow> err option \<times> sys" where
  "Destroy w ctx spec s =
     (if Spec_id spec = 0 then (None, s)
      else
        (let s1 = logger DebugLevel ''terminating server'' s;
             dargs = \<lparr>Destroy_ID = Spec_id spec, Destroy_IP = Spec_ip spec,
                      Destroy_Token = Spec_Token spec\<rparr>;
             r = w_Destroy w s1 ctx dargs
         in (r, emit (EvDestroy dargs r) s1)))"

subsection \<open>Run\<close>

text \<open>The loop over \<^verbatim>\<open>step.Files\<close>: the buffer gets the working directory line, the
  secrets, the environment and the file's own bytes, and is uploaded.\<close>

fun Run_uploads ::
  "world \<Rightarrow> scripts \<Rightarrow> Spec \<Rightarrow> Step \<Rightarrow> File list \<Rightarrow> sys \<Rightarrow> err option \<times> sys" where
  "Run_uploads w g spec step [] s = (None, s)"
| "Run_uploads w g spec step (file # files) s =
     (let buf = writeWorkdir g (Step_WorkingDir step)
                @ writeSecrets g (Platform_OS (Spec_Platform spec)) (Step_Secrets step)
                @ writeEnviron g (Platform_OS (Spec_Platform spec)) (Step_Envs step)
                @ File_Data file
      in case upload w (File_Path file) buf (File_Mode file) s of
           (Some e, s1) \<Rightarrow> (Some e, logger ErrorLevel ''cannot write file'' s1)
         | (None, s1) \<Rightarrow> Run_uploads w g spec step files s1)"

text \<open>The branch of the \<^verbatim>\<open>select\<close> taken when the context is done (at the instant
  \<open>dn\<close>) while the command would take \<open>d\<close>: the kill signal is sent, its error only
  logged, and the context's error returned with no state.\<close>

definition Run_cancelled ::
  "world \<Rightarrow> Context \<Rightarrow> string \<Rightarrow> nat \<Rightarrow> nat \<Rightarrow> sys \<Rightarrow> State option \<times> err option \<times> sys" where
  "Run_cancelled w ctx cmd d dn s1 =
     (let s2 = emit (EvSessionRun (clock s1) d cmd RunCancelled)
                 (s1\<lparr>clock := max (clock s1) dn\<rparr>);
          sg = w_Signal w s2;
          s3 = emit (EvSignalKill sg) s2;
          s4 = (case sg of Some e \<Rightarrow> logger DebugLevel ''kill remote process'' s3 | None \<Rightarrow> s3);
          s5 = logger DebugLevel ''ssh session killed'' s4
      in (None, Some (ctx_Err ctx), s5))"

text \<open>The code after the \<^verbatim>\<open>select\<close>, when the command has sent its result \<open>r\<close>
  after the duration \<open>d\<close>.\<close>

definition Run_finished ::
  "string \<Rightarrow> err option \<Rightarrow> nat \<Rightarrow> sys \<Rightarrow> State option \<times> err option \<times> sys" where
  "Run_finished cmd r d s1 =
     (let s2 = advance d (emit (EvSessionRun (clock s1) d cmd (RunDone r)) s1);
          state0 = \<lparr>ExitCode = 0, Exited = True, OOMKilled = False\<rparr>;
          state1 = (if r \<noteq> None then state0\<lparr>ExitCode := 255\<rparr> else state0);
          state2 = (case r of Some (ExitError n) \<Rightarrow> state1\<lparr>ExitCode := n\<rparr> | _ \<Rightarrow> state1);
          s3 = logger DebugLevel ''ssh session finished'' s2
      in (Some state2, r, s3))"

text \<open>The session: the command line is built, the command is run in the background
  and the \<^verbatim>\<open>select\<close> waits for its result or for the context. The environment says
  what the command returns and after how long; the context's branch is taken when the
  context is done no later than that.\<close>

definition Run_session ::
  "world \<Rightarrow> Context \<Rightarrow> Step \<Rightarrow> sys \<Rightarrow> State option \<times> err option \<times> sys" where
  "Run_session w ctx step s =
     (let cmd = Step_Command step @ '' '' @ strings_Join (Step_Args step) '' '';
          s1 = logger DebugLevel ''ssh session started'' s
      in case w_SessionRun w s1 cmd of
           (r, d) \<Rightarrow>
             (case ctx_Done ctx of
                None \<Rightarrow> Run_finished cmd r d s1
              | Some dn \<Rightarrow>
                  if dn \<le> clock s1 + d then Run_cancelled w ctx cmd d dn s1
                  else Run_finished cmd r d s1))"

text \<open>\<^verbatim>\<open>Run\<close> once the file transfer client is open: the uploads, the session and
  the deferred \<^verbatim>\<open>session.Close()\<close>.\<close>

definition Run_staged ::
  "world \<Rightarrow> scripts \<Rightarrow> Context \<Rightarrow> client \<Rightarrow> Spec \<Rightarrow> Step \<Rightarrow> sys \<Rightarrow>
     State option \<times> err option \<times> sys" where
  "Run_staged w g ctx c spec step s =
     (case Run_uploads w g spec step (Step_Files step) s of
        (Some e, s1) \<Rightarrow> (None, Some e, s1)
      | (None, s1) \<Rightarrow>
          (let r = w_NewSession w s1 c; s2 = emit (EvNewSession r) s1 in
           case r of
             Some e \<Rightarrow> (None, Some e, s2)
           | None \<Rightarrow>
               (case Run_session w ctx step s2 of
                  (st, r3, s3) \<Rightarrow> (st, r3, emit EvSessionClose s3))))"

text \<open>\<^verbatim>\<open>Run\<close> once connected: the file transfer client, the rest, and the deferred
  \<^verbatim>\<open>clientftp.Close()\<close> and \<^verbatim>\<open>client.Close()\<close>.\<close>

definition Run_connected ::
  "world \<Rightarrow> scripts \<Rightarrow> Context \<Rightarrow> client \<Rightarrow> Spec \<Rightarrow> Step \<Rightarrow> sys \<Rightarrow>
     State option \<times> err option \<times> sys" where
  "Run_connected w g ctx c spec step s =
     (let r = w_sftpNewClient w s c; s1 = emit (EvSftpNewClient c r) s in
      case r of
        Some e \<Rightarrow> (None, Some e, client_Close c s1)
      | None \<Rightarrow>
          (case Run_staged w g ctx c spec step s1 of
             (st, r2, s2) \<Rightarrow> (st, r2, client_Close c (emit EvSftpClose s2))))"

definition Run ::
  "world \<Rightarrow> scripts \<Rightarrow> Context \<Rightarrow> engine \<Rightarrow> Spec \<Rightarrow> Step \<Rightarrow> sys \<Rightarrow>
     State option \<times> err option \<times> sys" where
  "Run w g ctx e spec step s =
     (case dial w (Spec_ip spec) (Server_User (Spec_Server spec)) (privatekey e) s of
        (DialFailed c err, s1) \<Rightarrow> (None, Some err, s1)
      | (Connected c, s1) \<Rightarrow> Run_connected w g ctx c spec step s1)"

section \<open>Reading the trace\<close>

text \<open>The events a call has added to the trace.\<close>

definition new_events :: "sys \<Rightarrow> sys \<Rightarrow> event list" where
  "new_events s s' = drop (length (events s)) (events s')"

text \<open>The calls of the provisioning collaborator's delete operation, with their
  answers.\<close>

definition destroy_calls :: "event list \<Rightarrow> (DestroyArgs \<times> err option) list" where
  "destroy_calls evs =
     concat (map (\<lambda>ev. case ev of EvDestroy a r \<Rightarrow> [(a, r)] | _ \<Rightarrow> []) evs)"

text \<open>The addresses handed to \<^verbatim>\<open>ssh.Dial\<close>.\<close>

definition dialed :: "event list \<Rightarrow> string list" where
  "dialed evs = concat (map (\<lambda>ev. case ev of EvDial t d a u r \<Rightarrow> [a] | _ \<Rightarrow> []) evs)"

text \<open>The events by the collaborator they belong to.\<close>

datatype kind = KPlatform | KConn | KStager | KSession | KLog

fun kind_of :: "event \<Rightarrow> kind" where
  "kind_of (EvRegisterKey a r) = KPlatform"
| "kind_of (EvProvision a i r) = KPlatform"
| "kind_of (EvDestroy a r) = KPlatform"
| "kind_of (EvDial t d a u r) = KConn"
| "kind_of (EvClientClose c) = KConn"
| "kind_of (EvWait d) = KConn"
| "kind_of (EvSftpNewClient c r) = KStager"
| "kind_of EvSftpClose = KStager"
| "kind_of (EvMkdirAll p r) = KStager"
| "kind_of (EvChmod p m r) = KStager"
| "kind_of (EvCreate p r) = KStager"
| "kind_of (EvWrite p d r) = KStager"
| "kind_of (EvFileChmod p m r) = KStager"
| "kind_of (EvFileClose p) = KStager"
| "kind_of (EvNewSession r) = KSession"
| "kind_of EvSessionClose = KSession"
| "kind_of (EvSessionRun t d c r) = KSession"
| "kind_of (EvSignalKill r) = KSession"
| "kind_of (EvLog l m) = KLog"

text \<open>The calls of the provisioning collaborator's create operation, with their
  answers.\<close>

definition provisions :: "event list \<Rightarrow> (ProvisionArgs \<times> Instance \<times> err option) list" where
  "provisions evs =
     concat (map (\<lambda>ev. case ev of EvProvision a i r \<Rightarrow> [(a, i, r)] | _ \<Rightarrow> []) evs)"

subsection \<open>The connection manager in the trace\<close>

text \<open>The events of the connection manager: a dial (start, duration, address, user,
  result), the closing of a connection object, a wait (duration).\<close>

datatype conn_event =
    CDial nat nat string string dial_result
  | CClose client
  | CWait nat

definition conn_trace :: "event list \<Rightarrow> conn_event list" where
  "conn_trace evs =
     concat (map (\<lambda>ev. case ev of
                          EvDial t d a u r \<Rightarrow> [CDial t d a u r]
                        | EvClientClose c \<Rightarrow> [CClose c]
                        | EvWait d \<Rightarrow> [CWait d]
                        | _ \<Rightarrow> []) evs)"

text \<open>The address \<^verbatim>\<open>dial\<close> hands to \<^verbatim>\<open>ssh.Dial\<close> for a given one.\<close>

definition with_port :: "string \<Rightarrow> string" where
  "with_port server = (if HasSuffix server '':22'' then server else server @ '':22'')"

text \<open>The instants at which dials start.\<close>

definition attempts :: "event list \<Rightarrow> nat list" where
  "attempts evs = concat (map (\<lambda>ev. case ev of EvDial t d a u r \<Rightarrow> [t] | _ \<Rightarrow> []) evs)"

text \<open>Every dial in the trace was answered by the environment: the result and the
  duration recorded are what \<open>w_sshDial\<close> gives for the recorded address and user, at
  the recorded instant and after the events recorded before it (\<open>hist\<close> is the trace
  before the first of the events).\<close>

fun dials_answered :: "world \<Rightarrow> string \<Rightarrow> event list \<Rightarrow> event list \<Rightarrow> bool" where
  "dials_answered w pkey hist [] \<longleftrightarrow> True"
| "dials_answered w pkey hist (ev # evs) \<longleftrightarrow>
     (case ev of
        EvDial t d a u r \<Rightarrow> w_sshDial w \<lparr>clock = t, events = hist\<rparr> a u pkey = (r, d)
      | _ \<Rightarrow> True) \<and>
     dials_answered w pkey (hist @ [ev]) evs"

text \<open>The retry policy, read off the connection events. \<open>retry_trace tc p a u t evs r t'\<close>
  says that \<open>evs\<close> are the connection events of a retry loop under the context \<open>tc\<close>
  that starts at the instant \<open>t\<close>, dials the address \<open>a\<close> as the user \<open>u\<close>, returns
  \<open>r\<close> and ends at the instant \<open>t'\<close> (\<open>p\<close>: the private key parses, so that a dial is
  made at all):
  \<^item> when the context is done at \<open>t\<close>, nothing happens and the context's error is
    returned at once;
  \<^item> otherwise a dial starts at \<open>t\<close>; when it connects, its connection is returned when
    it ends;
  \<^item> when it fails, the connection object it returned, if any, is closed, and a wait
    starts when the dial ends: if the context is done within ten seconds, the wait
    lasts until then and the context's error is returned at that instant; if not, the
    wait lasts ten seconds and the loop starts again when it ends.\<close>

fun retry_trace ::
  "timerCtx \<Rightarrow> bool \<Rightarrow> string \<Rightarrow> string \<Rightarrow> nat \<Rightarrow> conn_event list \<Rightarrow> dial_result \<Rightarrow> nat \<Rightarrow> bool" where
  "retry_trace tc p a u t [] r t' \<longleftrightarrow>
     tc_Done tc \<le> t \<and> r = DialFailed None (tc_Err tc) \<and> t' = t"
| "retry_trace tc p a u t (CDial t0 d a0 u0 (Connected c) # evs) r t' \<longleftrightarrow>
     t < tc_Done tc \<and> p \<and> t0 = t \<and> a0 = a \<and> u0 = u \<and>
     evs = [] \<and> r = Connected c \<and> t' = t + d"
| "retry_trace tc p a u t (CDial t0 d a0 u0 (DialFailed None e) # CWait wd # evs) r t' \<longleftrightarrow>
     t < tc_Done tc \<and> p \<and> t0 = t \<and> a0 = a \<and> u0 = u \<and>
     (if tc_Done tc \<le> t + d + time_Second * 10
      then wd = tc_Done tc - (t + d) \<and> evs = [] \<and>
           r = DialFailed None (tc_Err tc) \<and> t' = max (t + d) (tc_Done tc)
      else wd = time_Second * 10 \<and>
           retry_trace tc p a u (t + d + time_Second * 10) evs r t')"
| "retry_trace tc p a u t (CDial t0 d a0 u0 (DialFailed (Some c) e) # CClose c' # CWait wd # evs) r t' \<longleftrightarrow>
     t < tc_Done tc \<and> p \<and> t0 = t \<and> a0 = a \<and> u0 = u \<and> c' = c \<and>
     (if tc_Done tc \<le> t + d + time_Second * 10
      then wd = tc_Done tc - (t + d) \<and> evs = [] \<and>
           r = DialFailed None (tc_Err tc) \<and> t' = max (t + d) (tc_Done tc)
      else wd = time_Second * 10 \<and>
           retry_trace tc p a u (t + d + time_Second * 10) evs r t')"
| "retry_trace tc p a u t (CWait wd # evs) r t' \<longleftrightarrow>
     t < tc_Done tc \<and> \<not> p \<and>
     (if tc_Done tc \<le> t + time_Second * 10
      then wd = tc_Done tc - t \<and> evs = [] \<and>
           r = DialFailed None (tc_Err tc) \<and> t' = max t (tc_Done tc)
      else wd = time_Second * 10 \<and>
           retry_trace tc p a u (t + time_Second * 10) evs r t')"
| "retry_trace tc p a u t evs r t' \<longleftrightarrow> False"

subsection \<open>The file stager in the trace\<close>

text \<open>The calls of the file transfer client, each with its answer (closing a file
  has none: its error is dropped).\<close>

datatype stager_call =
    MkdirAll string
  | Chmod string mode
  | Create string
  | Write string bytes
  | FileChmod string mode
  | FileClose string

definition stager_calls :: "event list \<Rightarrow> (stager_call \<times> err option) list" where
  "stager_calls evs =
     concat (map (\<lambda>ev. case ev of
                          EvMkdirAll p r \<Rightarrow> [(MkdirAll p, r)]
                        | EvChmod p m r \<Rightarrow> [(Chmod p m, r)]
                        | EvCreate p r \<Rightarrow> [(Create p, r)]
                        | EvWrite p d r \<Rightarrow> [(Write p d, r)]
                        | EvFileChmod p m r \<Rightarrow> [(FileChmod p m, r)]
                        | EvFileClose p \<Rightarrow> [(FileClose p, None)]
                        | _ \<Rightarrow> []) evs)"

text \<open>The calls that make a directory, and the calls that upload a file.\<close>

definition mkdir_calls :: "string \<Rightarrow> mode \<Rightarrow> stager_call list" where
  "mkdir_calls p m = [MkdirAll p, Chmod p m]"

definition upload_calls :: "string \<Rightarrow> bytes \<Rightarrow> mode \<Rightarrow> stager_call list" where
  "upload_calls p d m = [Create p, Write p d, FileChmod p m, FileClose p]"

text \<open>What is still done after a call has failed: a file that was created is closed.\<close>

fun closing :: "stager_call \<Rightarrow> (stager_call \<times> err option) list" where
  "closing (Write p d) = [(FileClose p, None)]"
| "closing (FileChmod p m) = [(FileClose p, None)]"
| "closing c = []"

text \<open>\<open>staged plan tr r\<close>: the calls \<open>tr\<close> made, with their answers, carry out the
  \<open>plan\<close> in order and the result is \<open>r\<close>. Either every call of the plan was made and
  succeeded, and \<open>r\<close> is nil; or the calls of the plan were made in order up to one
  that failed, nothing of the plan was done after it (but the closing of the open file),
  and \<open>r\<close> is its error.\<close>

fun staged :: "stager_call list \<Rightarrow> (stager_call \<times> err option) list \<Rightarrow> err option \<Rightarrow> bool" where
  "staged [] tr r \<longleftrightarrow> tr = [] \<and> r = None"
| "staged (c # plan) [] r \<longleftrightarrow> False"
| "staged (c # plan) ((c', a) # tr) r \<longleftrightarrow>
     c' = c \<and> (case a of None \<Rightarrow> staged plan tr r | Some e \<Rightarrow> r = Some e \<and> tr = closing c)"

text \<open>The staging of \<^verbatim>\<open>Setup\<close> as the specification describes it: the workspace root
  is made with mode \<^verbatim>\<open>0777\<close>, then every global file flagged as a directory is made,
  then every other global file is uploaded with its bytes and mode.\<close>

definition setup_calls :: "Spec \<Rightarrow> stager_call list" where
  "setup_calls spec =
     mkdir_calls (Spec_Root spec) 511
     @ concat (map (\<lambda>f. mkdir_calls (File_Path f) (File_Mode f))
                 (filter File_IsDir (Spec_Files spec)))
     @ concat (map (\<lambda>f. upload_calls (File_Path f) (File_Data f) (File_Mode f))
                 (filter (\<lambda>f. \<not> File_IsDir f) (Spec_Files spec)))"

text \<open>The uploads of \<^verbatim>\<open>Run\<close> as the specification describes them: for every file of
  the step, the working directory statement, the secret exports, the environment
  exports and the file's own bytes, in this order, are uploaded to the file's path
  with the file's mode.\<close>

definition run_calls :: "scripts \<Rightarrow> Spec \<Rightarrow> Step \<Rightarrow> stager_call list" where
  "run_calls g spec step =
     concat (map (\<lambda>f. upload_calls (File_Path f)
                        (writeWorkdir g (Step_WorkingDir step)
                         @ writeSecrets g (Platform_OS (Spec_Platform spec)) (Step_Secrets step)
                         @ writeEnviron g (Platform_OS (Spec_Platform spec)) (Step_Envs step)
                         @ File_Data f)
                        (File_Mode f))
                 (Step_Files step))"

subsection \<open>The session in the trace\<close>

text \<open>The events of the remote shell session.\<close>

definition session_trace :: "event list \<Rightarrow> event list" where
  "session_trace evs = filter (\<lambda>ev. kind_of ev = KSession) evs"

text \<open>The command line of a step, and the exit code reported for the result of the
  remote command.\<close>

definition command_line :: "Step \<Rightarrow> string" where
  "command_line step = Step_Command step @ '' '' @ strings_Join (Step_Args step) '' ''"

definition exit_code :: "err option \<Rightarrow> int" where
  "exit_code r = (case r of None \<Rightarrow> 0 | Some (ExitError n) \<Rightarrow> n | Some _ \<Rightarrow> 255)"

text \<open>The command lines handed to \<^verbatim>\<open>session.Run\<close>.\<close>

definition commands :: "event list \<Rightarrow> string list" where
  "commands evs =
     concat (map (\<lambda>ev. case ev of EvSessionRun t d c oc \<Rightarrow> [c] | _ \<Rightarrow> []) evs)"

text \<open>Every remote command in the trace was answered by the environment, and the
  \<^verbatim>\<open>select\<close> was decided by the context: a command started at the instant \<open>t\<close>, after
  the events \<open>hist\<close>, takes the duration the environment gives; it is recorded as
  cancelled when the context is done no later than \<open>t + d\<close>, and as completed with the
  environment's result otherwise. (When both channels of the \<^verbatim>\<open>select\<close> are ready at
  the same instant Go picks one of them at random; the model takes the context's.)\<close>

fun select_answered :: "world \<Rightarrow> Context \<Rightarrow> event list \<Rightarrow> event list \<Rightarrow> bool" where
  "select_answered w ctx hist [] \<longleftrightarrow> True"
| "select_answered w ctx hist (ev # evs) \<longleftrightarrow>
     (case ev of
        EvSessionRun t d c oc \<Rightarrow>
          d = snd (w_SessionRun w \<lparr>clock = t, events = hist\<rparr> c) \<and>
          oc = (if ctx_done_by ctx (t + d) then RunCancelled
                else RunDone (fst (w_SessionRun w \<lparr>clock = t, events = hist\<rparr> c)))
      | _ \<Rightarrow> True) \<and>
     select_answered w ctx (hist @ [ev]) evs"

text \<open>How the session of a step can end, as the session events \<open>tr\<close>, the state \<open>st\<close>
  and the error \<open>r\<close> returned: the session could not be opened; the command ran and
  completed with the result \<open>r0\<close>; or the wait for the command was given up, and the
  kill signal was sent.\<close>

definition session_outcome ::
  "Context \<Rightarrow> Step \<Rightarrow> event list \<Rightarrow> State option \<Rightarrow> err option \<Rightarrow> bool" where
  "session_outcome ctx step tr st r \<longleftrightarrow>
     (\<exists>e. tr = [EvNewSession (Some e)] \<and> st = None \<and> r = Some e) \<or>
     (\<exists>t d r0. tr = [EvNewSession None, EvSessionRun t d (command_line step) (RunDone r0),
                     EvSessionClose] \<and>
        r = r0 \<and> st = Some \<lparr>ExitCode = exit_code r0, Exited = True, OOMKilled = False\<rparr>) \<or>
     (\<exists>t d sg. tr = [EvNewSession None, EvSessionRun t d (command_line step) RunCancelled,
                     EvSignalKill sg, EvSessionClose] \<and>
        st = None \<and> r = Some (ctx_Err ctx))"

section \<open>A concrete environment\<close>

text \<open>An environment in which every collaborator succeeds: provisioning gives machine
  7, a dial and a remote command take one second each.\<close>

definition quiet_world :: world where
  "quiet_world =
     \<lparr>w_RegisterKey = (\<lambda>s ctx a. None),
      w_Provision = (\<lambda>s ctx a. (\<lparr>Instance_ID = 7, Instance_IP = ''10.0.0.7''\<rparr>, None)),
      w_Destroy = (\<lambda>s ctx a. None),
      w_ParsePrivateKey = (\<lambda>k. None),
      w_sshDial = (\<lambda>s a u k. (Connected 1, time_Second)),
      w_sftpNewClient = (\<lambda>s c. None),
      w_MkdirAll = (\<lambda>s p. None),
      w_Chmod = (\<lambda>s p m. None),
      w_Create = (\<lambda>s p. None),
      w_Write = (\<lambda>s p d. None),
      w_FileChmod = (\<lambda>s p m. None),
      w_NewSession = (\<lambda>s c. None),
      w_SessionRun = (\<lambda>s c. (None, time_Second)),
      w_Signal = (\<lambda>s. None)\<rparr>"

definition sys0 :: sys where
  "sys0 = \<lparr>clock = 0, events = []\<rparr>"

text \<open>A context that is never done.\<close>

definition background :: Context where
  "background = \<lparr>ctx_Done = None, ctx_Err = Canceled\<rparr>"

definition engine0 :: engine where
  "engine0 = \<lparr>privatekey = ''PRIVATE'', publickey = ''ssh-rsa AAAA'', fingerprint = ''43:c5''\<rparr>"

definition spec0 :: Spec where
  "spec0 =
     \<lparr>Spec_Token = ''tok'',
      Spec_Server = \<lparr>Server_Image = ''img'', Server_Name = ''vm'', Server_Region = ''nyc1'',
                     Server_Size = ''s-1vcpu'', Server_User = ''root''\<rparr>,
      Spec_Root = ''/tmp/drone'',
      Spec_Platform = \<lparr>Platform_OS = ''linux''\<rparr>,
      Spec_Files =
        [\<lparr>File_Path = ''/tmp/drone/netrc'', File_Mode = 384, File_Data = ''machine'',
          File_IsDir = False\<rparr>,
         \<lparr>File_Path = ''/tmp/drone/src'', File_Mode = 448, File_Data = [], File_IsDir = True\<rparr>],
      Spec_id = 0,
      Spec_ip = []\<rparr>"

text \<open>An environment whose server refuses connections during the first fifteen
  seconds, and a context that is cancelled from the start.\<close>

definition flaky_world :: world where
  "flaky_world =
     quiet_world\<lparr>w_sshDial := (\<lambda>s a u k.
        if clock s < 15 * time_Second
        then (DialFailed (Some 2) (OtherError ''connection refused''), time_Second)
        else (Connected 1, time_Second))\<rparr>"

definition cancelled :: Context where
  "cancelled = \<lparr>ctx_Done = Some 0, ctx_Err = Canceled\<rparr>"




text \<open>A step, a specification with a machine, environments in which the remote command
  fails, and a context that is cancelled while the command runs.\<close>

definition step0 :: Step where
  "step0 =
     \<lparr>Step_Command = ''/bin/sh'',
      Step_Args = [''-e'', ''/tmp/drone/script''],
      Step_WorkingDir = ''/tmp/drone-temp'',
      Step_Envs = [(''c'', ''d''), (''a'', ''b'')],
      Step_Secrets = [\<lparr>Secret_Env = ''token'', Secret_Data = ''s3cr3t''\<rparr>],
      Step_Files =
        [\<lparr>File_Path = ''/tmp/drone/script'', File_Mode = 448, File_Data = ''echo hello'',
          File_IsDir = False\<rparr>]\<rparr>"

definition spec7 :: Spec where
  "spec7 = spec0\<lparr>Spec_id := 7, Spec_ip := ''10.0.0.7''\<rparr>"

definition exit3_world :: world where
  "exit3_world = quiet_world\<lparr>w_SessionRun := (\<lambda>s c. (Some (ExitError 3), time_Second))\<rparr>"

definition broken_pipe_world :: world where
  "broken_pipe_world =
     quiet_world\<lparr>w_SessionRun := (\<lambda>s c. (Some (OtherError ''broken pipe''), time_Second))\<rparr>"

definition cancel_soon :: Context where
  "cancel_soon = \<lparr>ctx_Done = Some 1500000000, ctx_Err = Canceled\<rparr>"

text \<open>Stand-in writers for running the model on concrete inputs: each appends one line
  that names it. They are not the repository's script generator.\<close>

definition marker_scripts :: scripts where
  "marker_scripts =
     \<lparr>writeWorkdir = (\<lambda>path. ''[workdir '' @ path @ '']''),
      writeSecrets = (\<lambda>os secrets. ''[secrets '' @ os @ '']''),
      writeEnviron = (\<lambda>os envs. ''[environ '' @ os @ '']'')\<rparr>"

section \<open>Destroy\<close>

text \<open>Claim C3. For a specification whose machine identifier is zero, \<^verbatim>\<open>Destroy\<close>
  returns a nil error and leaves the trace as it is: the delete operation of the
  provisioning collaborator is not called. For any other identifier the delete
  operation is called once, with the identifier, the address and the token of the
  specification, and its answer is what \<^verbatim>\<open>Destroy\<close> returns.\<close>

theorem Destroy_zero_id:
  "(Spec_id spec = 0 \<longrightarrow> Destroy w ctx spec s = (None, s)) \<and>
   (Spec_id spec \<noteq> 0 \<longrightarrow>
      (\<exists>s1. fst (Destroy w ctx spec s) =
              w_Destroy w s1 ctx \<lparr>Destroy_ID = Spec_id spec, Destroy_IP = Spec_ip spec,
                                  Destroy_Token = Spec_Token spec\<rparr>) \<and>
      destroy_calls (events (snd (Destroy w ctx spec s))) =
        destroy_calls (events s) @
          [(\<lparr>Destroy_ID = Spec_id spec, Destroy_IP = Spec_ip spec,
             Destroy_Token = Spec_Token spec\<rparr>,
            fst (Destroy w ctx spec s))])"
  by (auto simp: Destroy_def Let_def destroy_calls_def emit_def logger_def)

theorem Destroy_zero_id_witness:
  "Destroy (quiet_world\<lparr>w_Destroy := (\<lambda>s ctx a. Some (OtherError ''gone''))\<rparr>)
       background spec0 sys0 = (None, sys0) \<and>
   destroy_calls (events (snd
       (Destroy (quiet_world\<lparr>w_Destroy := (\<lambda>s ctx a. Some (OtherError ''gone''))\<rparr>)
          background (spec0\<lparr>Spec_id := 7, Spec_ip := ''10.0.0.7''\<rparr>) sys0))) =
     [(\<lparr>Destroy_ID = 7, Destroy_IP = ''10.0.0.7'', Destroy_Token = ''tok''\<rparr>,
       Some (OtherError ''gone''))]"
  using
    Destroy_zero_id [of spec0
      "quiet_world\<lparr>w_Destroy := (\<lambda>s ctx a. Some (OtherError ''gone''))\<rparr>" background sys0]
    Destroy_zero_id [of "spec0\<lparr>Spec_id := 7, Spec_ip := ''10.0.0.7''\<rparr>"
      "quiet_world\<lparr>w_Destroy := (\<lambda>s ctx a. Some (OtherError ''gone''))\<rparr>" background sys0]
  by (simp add: spec0_def sys0_def destroy_calls_def Destroy_def Let_def emit_def logger_def
      quiet_world_def)

section \<open>Connection manager: the address dialed\<close>

lemma HasSuffix_iff: "HasSuffix s x \<longleftrightarrow> (\<exists>p. s = p @ x)"
proof
  assume "HasSuffix s x"
  then have "s = take (length s - length x) s @ x"
    by (metis HasSuffix_def append_take_drop_id)
  then show "\<exists>p. s = p @ x" ..
next
  assume "\<exists>p. s = p @ x"
  then show "HasSuffix s x" by (auto simp: HasSuffix_def)
qed

text \<open>Claim C9, as \<^verbatim>\<open>dial\<close> has it. When the private key parses, one address is
  dialed and it ends in \<^verbatim>\<open>:22\<close>: it is the given address when that ends in
  \<^verbatim>\<open>:22\<close>, and the given address followed by \<^verbatim>\<open>:22\<close> otherwise, whether or not
  the given address carries another port.\<close>

theorem dial_address:
  assumes "w_ParsePrivateKey w pkey = None"
  shows "\<exists>a. dialed (events (snd (dial w server username pkey s))) = dialed (events s) @ [a] \<and>
             HasSuffix a '':22'' \<and>
             (a = server \<longleftrightarrow> (\<exists>p. server = p @ '':22'')) \<and>
             ((\<nexists>p. server = p @ '':22'') \<longrightarrow> a = server @ '':22'')"
proof (cases "HasSuffix server '':22''")
  case True
  then have "dialed (events (snd (dial w server username pkey s))) = dialed (events s) @ [server]"
    using assms
    by (simp add: dial_def Let_def dialed_def emit_def advance_def split: prod.splits)
  then show ?thesis using True by (auto simp: HasSuffix_iff)
next
  case False
  then have "dialed (events (snd (dial w server username pkey s))) =
      dialed (events s) @ [server @ '':22'']"
    using assms
    by (simp add: dial_def Let_def dialed_def emit_def advance_def split: prod.splits)
  moreover have "HasSuffix (server @ '':22'') '':22''"
    by (simp add: HasSuffix_def)
  ultimately show ?thesis using False by (auto simp: HasSuffix_iff)
qed

theorem dial_address_witness:
  "dialed (events (snd (dial quiet_world ''10.0.0.7'' ''root'' ''PRIVATE'' sys0))) =
     [''10.0.0.7:22''] \<and>
   dialed (events (snd (dial quiet_world ''10.0.0.7:22'' ''root'' ''PRIVATE'' sys0))) =
     [''10.0.0.7:22'']"
proof -
  have p: "w_ParsePrivateKey quiet_world ''PRIVATE'' = None"
    by (simp add: quiet_world_def)
  have a: "\<nexists>p. ''10.0.0.7'' = p @ '':22''"
    using HasSuffix_iff [of "''10.0.0.7''" "'':22''"] by (simp add: HasSuffix_def)
  have b: "\<exists>p. ''10.0.0.7:22'' = p @ '':22''"
    using HasSuffix_iff [of "''10.0.0.7:22''" "'':22''"] by (simp add: HasSuffix_def)
  from dial_address [OF p, of "''10.0.0.7''" "''root''" sys0] a
  have 1: "dialed (events (snd (dial quiet_world ''10.0.0.7'' ''root'' ''PRIVATE'' sys0))) =
      [''10.0.0.7:22'']"
    by (auto simp: sys0_def dialed_def)
  from dial_address [OF p, of "''10.0.0.7:22''" "''root''" sys0] b
  have 2: "dialed (events (snd (dial quiet_world ''10.0.0.7:22'' ''root'' ''PRIVATE'' sys0))) =
      [''10.0.0.7:22'']"
    by (auto simp: sys0_def dialed_def)
  from 1 2 show ?thesis by simp
qed

text \<open>The claim as it is written fails for an address that carries a port other than
  22: it is not dialed unchanged, \<^verbatim>\<open>:22\<close> is appended to it.\<close>

theorem dial_address_counterexample:
  "dialed (events (snd (dial quiet_world ''10.0.0.7:2222'' ''root'' ''PRIVATE'' sys0))) =
     [''10.0.0.7:2222:22''] \<and>
   ''10.0.0.7:2222:22'' \<noteq> ''10.0.0.7:2222''"
  by (simp add: dial_def dialed_def emit_def advance_def quiet_world_def sys0_def HasSuffix_def)

section \<open>Basic facts about the trace\<close>

lemma emit_simps [simp]:
  "events (emit ev s) = events s @ [ev]" "clock (emit ev s) = clock s"
  by (simp_all add: emit_def)

lemma logger_simps [simp]:
  "events (logger l m s) = events s @ [EvLog l m]" "clock (logger l m s) = clock s"
  by (simp_all add: logger_def)

lemma advance_simps [simp]:
  "events (advance d s) = events s" "clock (advance d s) = clock s + d"
  by (simp_all add: advance_def)

lemma client_Close_simps [simp]:
  "events (client_Close c s) = events s @ [EvClientClose c]" "clock (client_Close c s) = clock s"
  by (simp_all add: client_Close_def)

lemma sys_eq [simp]: "\<lparr>clock = clock s, events = events s\<rparr> = s"
  by (cases s) simp

lemma sys_upd: "s\<lparr>events := x\<rparr> = \<lparr>clock = clock s, events = x\<rparr>"
  by (cases s) simp

lemma new_events_append: "events s' = events s @ evs \<Longrightarrow> new_events s s' = evs"
  by (simp add: new_events_def)

lemma dial_cases:
  assumes "dial w server username pkey s = (r, s')"
  obtains (unparsed) e where "w_ParsePrivateKey w pkey = Some e" "r = DialFailed None e" "s' = s"
  | (dialed) d where "w_ParsePrivateKey w pkey = None"
      "w_sshDial w s (with_port server) username pkey = (r, d)"
      "events s' = events s @ [EvDial (clock s) d (with_port server) username r]"
      "clock s' = clock s + d"
  using assms
  by (auto simp: dial_def Let_def with_port_def split: option.splits prod.splits if_splits)

declare dialRetry_loop.simps [simp del]

lemma dialRetry_loop_cases:
  assumes "dialRetry_loop w tc server username pkey i s = (r, s')"
  obtains (over) "tc_Done tc \<le> clock s" "r = DialFailed None (tc_Err tc)" "s' = s"
  | (connected) c where "\<not> tc_Done tc \<le> clock s"
      "dial w server username pkey (logger DebugLevel ''dialing the vm'' s) = (Connected c, s')"
      "r = Connected c"
  | (cut) c e s2 s4 where "\<not> tc_Done tc \<le> clock s"
      "dial w server username pkey (logger DebugLevel ''dialing the vm'' s) = (DialFailed c e, s2)"
      "s4 = (case c of None \<Rightarrow> logger TraceLevel ''failed to re-dial vm'' s2
             | Some cl \<Rightarrow> client_Close cl (logger TraceLevel ''failed to re-dial vm'' s2))"
      "tc_Done tc \<le> clock s4 + time_Second * 10"
      "r = DialFailed None (tc_Err tc)"
      "s' = emit (EvWait (tc_Done tc - clock s4)) s4\<lparr>clock := max (clock s4) (tc_Done tc)\<rparr>"
  | (again) c e s2 s4 where "\<not> tc_Done tc \<le> clock s"
      "dial w server username pkey (logger DebugLevel ''dialing the vm'' s) = (DialFailed c e, s2)"
      "s4 = (case c of None \<Rightarrow> logger TraceLevel ''failed to re-dial vm'' s2
             | Some cl \<Rightarrow> client_Close cl (logger TraceLevel ''failed to re-dial vm'' s2))"
      "\<not> tc_Done tc \<le> clock s4 + time_Second * 10"
      "dialRetry_loop w tc server username pkey (i + 1)
         (advance (time_Second * 10) (emit (EvWait (time_Second * 10)) s4)) = (r, s')"
proof (cases "tc_Done tc \<le> clock s")
  case True
  with assms show ?thesis
    by (intro over) (simp_all add: dialRetry_loop.simps)
next
  case False
  obtain r1 s2 where d: "dial w server username pkey (logger DebugLevel ''dialing the vm'' s) = (r1, s2)"
    by (cases "dial w server username pkey (logger DebugLevel ''dialing the vm'' s)")
  show ?thesis
  proof (cases r1)
    case (Connected c)
    with assms False d show ?thesis
      by (intro connected [of c]) (simp_all add: dialRetry_loop.simps)
  next
    case (DialFailed c e)
    define s4 where "s4 = (case c of None \<Rightarrow> logger TraceLevel ''failed to re-dial vm'' s2
             | Some cl \<Rightarrow> client_Close cl (logger TraceLevel ''failed to re-dial vm'' s2))"
    show ?thesis
    proof (cases "tc_Done tc \<le> clock s4 + time_Second * 10")
      case True
      with assms False d DialFailed s4_def show ?thesis
        by (intro cut [of c e s2 s4]) (simp_all add: dialRetry_loop.simps Let_def)
    next
      case nd: False
      with assms False d DialFailed s4_def show ?thesis
        by (intro again [of c e s2 s4]) (simp_all add: dialRetry_loop.simps Let_def)
    qed
  qed
qed

lemma conn_trace_simps [simp]:
  "conn_trace [] = []"
  "conn_trace (xs @ ys) = conn_trace xs @ conn_trace ys"
  "conn_trace (ev # evs) =
     (case ev of
        EvDial t d a u r \<Rightarrow> [CDial t d a u r]
      | EvClientClose c \<Rightarrow> [CClose c]
      | EvWait d \<Rightarrow> [CWait d]
      | _ \<Rightarrow> []) @ conn_trace evs"
  by (simp_all add: conn_trace_def)

lemma attempts_simps [simp]:
  "attempts [] = []"
  "attempts (xs @ ys) = attempts xs @ attempts ys"
  "attempts (ev # evs) = (case ev of EvDial t d a u r \<Rightarrow> [t] | _ \<Rightarrow> []) @ attempts evs"
  by (simp_all add: attempts_def)

lemma dials_answered_append:
  "dials_answered w pkey hist (xs @ ys) \<longleftrightarrow>
     dials_answered w pkey hist xs \<and> dials_answered w pkey (hist @ xs) ys"
  by (induction xs arbitrary: hist) auto

text \<open>What the retry loop leaves in the trace and returns.\<close>

lemma dialRetry_loop_trace:
  "dialRetry_loop w tc server username pkey i s = (r, s') \<Longrightarrow>
   \<exists>evs. events s' = events s @ evs \<and>
         (\<forall>ev \<in> set evs. kind_of ev = KConn \<or> kind_of ev = KLog) \<and>
         (r = DialFailed None (tc_Err tc) \<or> (\<exists>c. r = Connected c)) \<and>
         (\<forall>t \<in> set (attempts evs). clock s \<le> t \<and> t < tc_Done tc) \<and>
         retry_trace tc (w_ParsePrivateKey w pkey = None) (with_port server) username (clock s)
           (conn_trace evs) r (clock s') \<and>
         dials_answered w pkey (events s) evs \<and>
         ((\<forall>c. r \<noteq> Connected c) \<longrightarrow> tc_Done tc \<le> clock s') \<and>
         clock s \<le> clock s' \<and>
         (\<forall>c. r = Connected c \<longrightarrow> (\<exists>t d u. EvDial t d (with_port server) u (Connected c) \<in> set evs))"
proof (induction w tc server username pkey i s arbitrary: r s' rule: dialRetry_loop.induct)
  case (1 w tc server username pkey i s)
  let ?a = "with_port server"
  let ?s0 = "logger DebugLevel ''dialing the vm'' s"
  let ?lg = "EvLog DebugLevel ''dialing the vm''"
  let ?p = "w_ParsePrivateKey w pkey = None"
  from "1.prems" show ?case
  proof (cases rule: dialRetry_loop_cases)
    case over
    then show ?thesis by simp
  next
    case (connected c)
    from connected(2) show ?thesis
    proof (cases rule: dial_cases)
      case (unparsed e)
      then show ?thesis by simp
    next
      case (dialed d)
      have "w_sshDial w \<lparr>clock = clock s, events = events s @ [?lg]\<rparr> ?a username pkey =
          (Connected c, d)"
        using dialed(2) by (simp add: logger_def emit_def sys_upd)
      with dialed connected show ?thesis
        by (intro exI [of _ "[?lg, EvDial (clock s) d ?a username (Connected c)]"]) auto
    qed
  next
    case (cut c e s2 s4)
    have "\<exists>evs1. events s2 = events s @ ?lg # evs1 \<and> clock s \<le> clock s2 \<and>
        dials_answered w pkey (events s @ [?lg]) evs1 \<and>
        (evs1 = [] \<and> c = None \<and> \<not> ?p \<and> clock s2 = clock s \<or>
         ?p \<and> (\<exists>d. evs1 = [EvDial (clock s) d ?a username (DialFailed c e)] \<and>
                  clock s2 = clock s + d))"
      using cut(2)
    proof (cases rule: dial_cases)
      case (unparsed e')
      then show ?thesis by auto
    next
      case (dialed d)
      have "w_sshDial w \<lparr>clock = clock s, events = events s @ [?lg]\<rparr> ?a username pkey =
          (DialFailed c e, d)"
        using dialed(2) by (simp add: logger_def emit_def sys_upd)
      with dialed show ?thesis by auto
    qed
    then obtain evs1 where e1: "events s2 = events s @ ?lg # evs1"
      and c1: "clock s \<le> clock s2"
      and a1: "dials_answered w pkey (events s @ [?lg]) evs1"
      and f1: "evs1 = [] \<and> c = None \<and> \<not> ?p \<and> clock s2 = clock s \<or>
         ?p \<and> (\<exists>d. evs1 = [EvDial (clock s) d ?a username (DialFailed c e)] \<and>
                  clock s2 = clock s + d)"
      by blast
    have c4: "clock s4 = clock s2"
      using cut(3) by (simp split: option.splits)
    define tail where "tail = EvLog TraceLevel ''failed to re-dial vm'' #
        (case c of None \<Rightarrow> [] | Some cl \<Rightarrow> [EvClientClose cl]) @ [EvWait (tc_Done tc - clock s4)]"
    have ev: "events s' = events s @ ?lg # evs1 @ tail"
      using cut(3,6) e1 by (simp add: tail_def split: option.splits)
    have cl: "clock s' = max (clock s2) (tc_Done tc)"
      using cut(6) c4 by simp
    have k: "\<forall>ev \<in> set (?lg # evs1 @ tail). kind_of ev = KConn \<or> kind_of ev = KLog"
      using f1 by (auto simp: tail_def split: option.splits)
    have at: "\<forall>t \<in> set (attempts (?lg # evs1 @ tail)). clock s \<le> t \<and> t < tc_Done tc"
      using f1 cut(1) by (auto simp: tail_def split: option.splits)
    have rt: "retry_trace tc ?p ?a username (clock s) (conn_trace (?lg # evs1 @ tail))
        (DialFailed None (tc_Err tc)) (clock s')"
      using f1 cut(1,4) c4 cl by (cases c) (auto simp: tail_def max_def)
    have da: "dials_answered w pkey (events s) (?lg # evs1 @ tail)"
      using a1 by (cases c) (simp_all add: tail_def dials_answered_append)
    from ev k at rt da cut(5) cl c1 show ?thesis
      by (intro exI [of _ "?lg # evs1 @ tail"]) (auto simp: max_def)
  next
    case (again c e s2 s4)
    let ?s5 = "advance (time_Second * 10) (emit (EvWait (time_Second * 10)) s4)"
    have "\<exists>evs1. events s2 = events s @ ?lg # evs1 \<and> clock s \<le> clock s2 \<and>
        dials_answered w pkey (events s @ [?lg]) evs1 \<and>
        (evs1 = [] \<and> c = None \<and> \<not> ?p \<and> clock s2 = clock s \<or>
         ?p \<and> (\<exists>d. evs1 = [EvDial (clock s) d ?a username (DialFailed c e)] \<and>
                  clock s2 = clock s + d))"
      using again(2)
    proof (cases rule: dial_cases)
      case (unparsed e')
      then show ?thesis by auto
    next
      case (dialed d)
      have "w_sshDial w \<lparr>clock = clock s, events = events s @ [?lg]\<rparr> ?a username pkey =
          (DialFailed c e, d)"
        using dialed(2) by (simp add: logger_def emit_def sys_upd)
      with dialed show ?thesis by auto
    qed
    then obtain evs1 where e1: "events s2 = events s @ ?lg # evs1"
      and c1: "clock s \<le> clock s2"
      and a1: "dials_answered w pkey (events s @ [?lg]) evs1"
      and f1: "evs1 = [] \<and> c = None \<and> \<not> ?p \<and> clock s2 = clock s \<or>
         ?p \<and> (\<exists>d. evs1 = [EvDial (clock s) d ?a username (DialFailed c e)] \<and>
                  clock s2 = clock s + d)"
      by blast
    have c4: "clock s4 = clock s2"
      using again(3) by (simp split: option.splits)
    define mid where "mid = EvLog TraceLevel ''failed to re-dial vm'' #
        (case c of None \<Rightarrow> [] | Some cl \<Rightarrow> [EvClientClose cl]) @ [EvWait (time_Second * 10)]"
    have e5: "events ?s5 = events s @ ?lg # evs1 @ mid"
      using again(3) e1 by (simp add: mid_def split: option.splits)
    have c5: "clock ?s5 = clock s2 + time_Second * 10"
      using c4 by simp
    have s4': "s4 = (case c of None \<Rightarrow> logger TraceLevel ''failed to re-dial vm'' s2
        | Some cl \<Rightarrow> client_Close cl (logger TraceLevel ''failed to re-dial vm'' s2))"
      by (rule again(3))
    have ih: "\<exists>evs. events s' = events ?s5 @ evs \<and>
         (\<forall>ev \<in> set evs. kind_of ev = KConn \<or> kind_of ev = KLog) \<and>
         (r = DialFailed None (tc_Err tc) \<or> (\<exists>c. r = Connected c)) \<and>
         (\<forall>t \<in> set (attempts evs). clock ?s5 \<le> t \<and> t < tc_Done tc) \<and>
         retry_trace tc ?p ?a username (clock ?s5) (conn_trace evs) r (clock s') \<and>
         dials_answered w pkey (events ?s5) evs \<and>
         ((\<forall>c. r \<noteq> Connected c) \<longrightarrow> tc_Done tc \<le> clock s') \<and>
         clock ?s5 \<le> clock s' \<and>
         (\<forall>c. r = Connected c \<longrightarrow> (\<exists>t d u. EvDial t d ?a u (Connected c) \<in> set evs))"
      using "1.IH" [OF again(1) again(2) [symmetric] refl refl _ _ again(5)] again(3,4)
      by (simp add: s4' split: option.splits)
    then obtain evs where ev: "events s' = events ?s5 @ evs"
      and k: "\<forall>ev \<in> set evs. kind_of ev = KConn \<or> kind_of ev = KLog"
      and rr: "r = DialFailed None (tc_Err tc) \<or> (\<exists>c. r = Connected c)"
      and at: "\<forall>t \<in> set (attempts evs). clock ?s5 \<le> t \<and> t < tc_Done tc"
      and ro: "retry_trace tc ?p ?a username (clock ?s5) (conn_trace evs) r (clock s')"
      and da: "dials_answered w pkey (events ?s5) evs"
      and dn: "(\<forall>c. r \<noteq> Connected c) \<longrightarrow> tc_Done tc \<le> clock s'"
      and cl: "clock ?s5 \<le> clock s'"
      and co: "\<forall>c. r = Connected c \<longrightarrow> (\<exists>t d u. EvDial t d ?a u (Connected c) \<in> set evs)"
      by blast
    have ev': "events s' = events s @ (?lg # evs1 @ mid @ evs)"
      using ev e5 by simp
    have k': "\<forall>ev \<in> set (?lg # evs1 @ mid @ evs). kind_of ev = KConn \<or> kind_of ev = KLog"
      using f1 k by (auto simp: mid_def split: option.splits)
    have at': "\<forall>t \<in> set (attempts (?lg # evs1 @ mid @ evs)). clock s \<le> t \<and> t < tc_Done tc"
      using f1 at again(1) c1 c5 by (auto simp: mid_def split: option.splits)
    have rt': "retry_trace tc ?p ?a username (clock s) (conn_trace (?lg # evs1 @ mid @ evs)) r (clock s')"
      using f1 again(1,4) c4 c5 ro by (cases c) (auto simp: mid_def)
    have da': "dials_answered w pkey (events s) (?lg # evs1 @ mid @ evs)"
      using a1 da e5 by (cases c) (simp_all add: mid_def dials_answered_append)
    have co': "\<forall>c. r = Connected c \<longrightarrow> (\<exists>t d u. EvDial t d ?a u (Connected c) \<in> set (?lg # evs1 @ mid @ evs))"
      using co by (simp; blast)
    from ev' k' rr at' rt' da' dn cl c1 c5 co' show ?thesis
      by (intro exI [of _ "?lg # evs1 @ mid @ evs"]) auto
  qed
qed


section \<open>Connection manager: the retry policy\<close>

lemma flaky_first:
  "dial flaky_world ''10.0.0.7'' ''root'' ''PRIVATE'' sys0 =
     (DialFailed (Some 2) (OtherError ''connection refused''),
      \<lparr>clock = time_Second,
       events = [EvDial 0 time_Second ''10.0.0.7:22'' ''root''
                   (DialFailed (Some 2) (OtherError ''connection refused''))]\<rparr>)"
  by (simp add: dial_def flaky_world_def quiet_world_def sys0_def HasSuffix_def
      emit_def advance_def time_Second_def)

lemmas retry_defs = dialRetry_def dialRetry_loop.simps dial_def flaky_world_def quiet_world_def
  sys0_def HasSuffix_def emit_def advance_def logger_def client_Close_def time_Second_def
  time_Minute_def networkTimeout_def WithTimeout_def Let_def

lemma flaky_run:
  "dialRetry flaky_world background ''10.0.0.7'' ''root'' ''PRIVATE'' sys0 =
     (Connected 1,
      \<lparr>clock = 24 * time_Second,
       events =
         [EvDial 0 time_Second ''10.0.0.7:22'' ''root''
            (DialFailed (Some 2) (OtherError ''connection refused'')),
          EvLog DebugLevel ''dialing the vm'',
          EvDial time_Second time_Second ''10.0.0.7:22'' ''root''
            (DialFailed (Some 2) (OtherError ''connection refused'')),
          EvLog TraceLevel ''failed to re-dial vm'',
          EvClientClose 2,
          EvWait (10 * time_Second),
          EvLog DebugLevel ''dialing the vm'',
          EvDial (12 * time_Second) time_Second ''10.0.0.7:22'' ''root''
            (DialFailed (Some 2) (OtherError ''connection refused'')),
          EvLog TraceLevel ''failed to re-dial vm'',
          EvClientClose 2,
          EvWait (10 * time_Second),
          EvLog DebugLevel ''dialing the vm'',
          EvDial (23 * time_Second) time_Second ''10.0.0.7:22'' ''root'' (Connected 1)]\<rparr>)"
  by (simp add: retry_defs background_def)

lemma flaky_cancelled:
  "dialRetry flaky_world cancelled ''10.0.0.7'' ''root'' ''PRIVATE'' sys0 =
     (DialFailed None Canceled,
      \<lparr>clock = time_Second,
       events = [EvDial 0 time_Second ''10.0.0.7:22'' ''root''
                   (DialFailed (Some 2) (OtherError ''connection refused''))]\<rparr>)"
  by (simp add: retry_defs cancelled_def)

text \<open>Claim C6, as \<^verbatim>\<open>dialRetry\<close> has it. The first dial is made at once and its
  connection returned when it connects, whatever the context. When it fails, the loop
  runs under the child context \<open>tc\<close>, made when the first dial has failed and done at
  most the network timeout of ten minutes later, or when the given context is done if
  that is earlier. The connection events of the loop are those of the retry policy
  (\<open>retry_trace\<close>): the context is checked before each dial, a failed dial's
  connection object is closed, the wait between two dials is ten seconds, and a
  context done during the wait ends it with the context's error at that instant. Every
  dial recorded is the environment's answer. The result is a connection or the child
  context's error, never the error of a dial. Given a context that is already
  cancelled, \<^verbatim>\<open>dialRetry\<close> returns the context's error without any further dial when
  the first dial fails.\<close>

theorem dialRetry_policy:
  assumes "dialRetry w ctx server username pkey s = (r, s')"
    and "dial w server username pkey s = (r1, s1)"
    and "tc = WithTimeout ctx networkTimeout (clock s1)"
  shows "(\<forall>c. r1 = Connected c \<longrightarrow> r = Connected c \<and> s' = s1) \<and>
         ((\<forall>c. r1 \<noteq> Connected c) \<longrightarrow>
            events s' = events s1 @ new_events s1 s' \<and>
            retry_trace tc (w_ParsePrivateKey w pkey = None)
              (if HasSuffix server '':22'' then server else server @ '':22'') username
              (clock s1) (conn_trace (new_events s1 s')) r (clock s') \<and>
            dials_answered w pkey (events s1) (new_events s1 s') \<and>
            (r = DialFailed None (tc_Err tc) \<or> (\<exists>c. r = Connected c)) \<and>
            tc_Done tc \<le> clock s1 + networkTimeout \<and>
            networkTimeout = 10 * 60 * time_Second \<and>
            (tc_Done tc = clock s1 + networkTimeout \<and> tc_Err tc = DeadlineExceeded \<or>
             ctx_Done ctx = Some (tc_Done tc) \<and> tc_Err tc = ctx_Err ctx) \<and>
            (\<forall>t \<in> set (attempts (new_events s1 s')). clock s1 \<le> t \<and> t < tc_Done tc) \<and>
            ((\<forall>c. r \<noteq> Connected c) \<longrightarrow> tc_Done tc \<le> clock s') \<and>
            (ctx_done_by ctx (clock s) \<longrightarrow> r = DialFailed None (ctx_Err ctx) \<and> s' = s1))"
proof (intro conjI allI impI)
  fix c assume "r1 = Connected c"
  with assms show "r = Connected c" and "s' = s1"
    by (simp_all add: dialRetry_def)
next
  assume nc: "\<forall>c. r1 \<noteq> Connected c"
  then obtain c0 e0 where r1: "r1 = DialFailed c0 e0"
    by (cases r1) auto
  with assms have loop: "dialRetry_loop w tc server username pkey 1 s1 = (r, s')"
    by (simp add: dialRetry_def)
  from dialRetry_loop_trace [OF loop]
  obtain evs where ev: "events s' = events s1 @ evs"
      and rr: "r = DialFailed None (tc_Err tc) \<or> (\<exists>c. r = Connected c)"
      and at: "\<forall>t \<in> set (attempts evs). clock s1 \<le> t \<and> t < tc_Done tc"
      and ro: "retry_trace tc (w_ParsePrivateKey w pkey = None) (with_port server) username
                 (clock s1) (conn_trace evs) r (clock s')"
      and da: "dials_answered w pkey (events s1) evs"
      and dn: "(\<forall>c. r \<noteq> Connected c) \<longrightarrow> tc_Done tc \<le> clock s'"
    by blast
  have ne: "new_events s1 s' = evs"
    using ev by (rule new_events_append)
  show "events s' = events s1 @ new_events s1 s'"
    using ev ne by simp
  show "retry_trace tc (w_ParsePrivateKey w pkey = None)
      (if HasSuffix server '':22'' then server else server @ '':22'') username
      (clock s1) (conn_trace (new_events s1 s')) r (clock s')"
    using ro ne by (simp add: with_port_def)
  show "dials_answered w pkey (events s1) (new_events s1 s')"
    using da ne by simp
  show "r = DialFailed None (tc_Err tc) \<or> (\<exists>c. r = Connected c)"
    by (rule rr)
  show "tc_Done tc \<le> clock s1 + networkTimeout"
    using assms(3) by (simp add: WithTimeout_def split: option.splits)
  show "networkTimeout = 10 * 60 * time_Second"
    by (simp add: networkTimeout_def time_Minute_def)
  show "tc_Done tc = clock s1 + networkTimeout \<and> tc_Err tc = DeadlineExceeded \<or>
      ctx_Done ctx = Some (tc_Done tc) \<and> tc_Err tc = ctx_Err ctx"
    using assms(3) by (simp add: WithTimeout_def split: option.splits)
  show "\<forall>t \<in> set (attempts (new_events s1 s')). clock s1 \<le> t \<and> t < tc_Done tc"
    using at ne by simp
  show "tc_Done tc \<le> clock s'" if "\<forall>c. r \<noteq> Connected c"
    using dn that by simp
  have canc: "r = DialFailed None (ctx_Err ctx) \<and> s' = s1" if "ctx_done_by ctx (clock s)"
  proof -
    from that obtain d where d: "ctx_Done ctx = Some d" "d \<le> clock s"
      by (auto simp: ctx_done_by_def split: option.splits)
    moreover have "clock s \<le> clock s1"
      using assms(2) by (rule dial_clock)
    ultimately have "tc_Done tc \<le> clock s1" "tc_Err tc = ctx_Err ctx"
      using assms(3) by (simp_all add: WithTimeout_def)
    with loop show ?thesis
      by (simp add: dialRetry_loop.simps)
  qed
  show "r = DialFailed None (ctx_Err ctx)" if "ctx_done_by ctx (clock s)"
    using canc that by simp
  show "s' = s1" if "ctx_done_by ctx (clock s)"
    using canc that by simp
qed

theorem dialRetry_policy_witness:
  "retry_trace \<lparr>tc_Done = 601 * time_Second, tc_Err = DeadlineExceeded\<rparr> True
     ''10.0.0.7:22'' ''root'' time_Second
     [CDial time_Second time_Second ''10.0.0.7:22'' ''root''
        (DialFailed (Some 2) (OtherError ''connection refused'')),
      CClose 2,
      CWait (10 * time_Second),
      CDial (12 * time_Second) time_Second ''10.0.0.7:22'' ''root''
        (DialFailed (Some 2) (OtherError ''connection refused'')),
      CClose 2,
      CWait (10 * time_Second),
      CDial (23 * time_Second) time_Second ''10.0.0.7:22'' ''root'' (Connected 1)]
     (Connected 1) (24 * time_Second) \<and>
   fst (dialRetry flaky_world background ''10.0.0.7'' ''root'' ''PRIVATE'' sys0) = Connected 1 \<and>
   fst (dialRetry flaky_world cancelled ''10.0.0.7'' ''root'' ''PRIVATE'' sys0) =
     DialFailed None Canceled"
proof -
  have nc: "\<forall>c. DialFailed (Some 2) (OtherError ''connection refused'') \<noteq> Connected c"
    by simp
  have tc: "\<lparr>tc_Done = 601 * time_Second, tc_Err = DeadlineExceeded\<rparr> =
      WithTimeout background networkTimeout (clock \<lparr>clock = time_Second,
       events = [EvDial 0 time_Second ''10.0.0.7:22'' ''root''
                   (DialFailed (Some 2) (OtherError ''connection refused''))]\<rparr>)"
    by (simp add: WithTimeout_def background_def networkTimeout_def time_Minute_def
        time_Second_def)
  have p: "w_ParsePrivateKey flaky_world ''PRIVATE'' = None"
    by (simp add: flaky_world_def quiet_world_def)
  from dialRetry_policy [OF flaky_run flaky_first tc] nc
  have 1: "retry_trace \<lparr>tc_Done = 601 * time_Second, tc_Err = DeadlineExceeded\<rparr> True
     ''10.0.0.7:22'' ''root'' time_Second
     [CDial time_Second time_Second ''10.0.0.7:22'' ''root''
        (DialFailed (Some 2) (OtherError ''connection refused'')),
      CClose 2,
      CWait (10 * time_Second),
      CDial (12 * time_Second) time_Second ''10.0.0.7:22'' ''root''
        (DialFailed (Some 2) (OtherError ''connection refused'')),
      CClose 2,
      CWait (10 * time_Second),
      CDial (23 * time_Second) time_Second ''10.0.0.7:22'' ''root'' (Connected 1)]
     (Connected 1) (24 * time_Second)"
    by (simp add: p new_events_def HasSuffix_def)
  have cd: "ctx_done_by cancelled (clock sys0)"
    by (simp add: ctx_done_by_def cancelled_def)
  from dialRetry_policy [OF flaky_cancelled flaky_first refl] nc cd
  have "DialFailed None Canceled = DialFailed None (ctx_Err cancelled)"
    by simp
  then have 2: "fst (dialRetry flaky_world cancelled ''10.0.0.7'' ''root'' ''PRIVATE'' sys0) =
     DialFailed None Canceled"
    by (simp add: flaky_cancelled)
  from 1 2 show ?thesis
    by (simp add: flaky_run)
qed

text \<open>The claim as it is written fails in two places. Given a context that is already
  cancelled, \<^verbatim>\<open>dialRetry\<close> returns the connection, not the context's error, when the
  first dial connects. And after a failed first dial the loop dials again at once: the
  connection object returned by the failed first dial is not closed, and no ten seconds
  are waited, before the next dial. In the run below the first two connection events
  are two dials, the second starting at the instant at which the first has ended.\<close>

theorem dialRetry_policy_counterexample:
  "ctx_done_by cancelled (clock sys0) \<and>
   fst (dialRetry quiet_world cancelled ''10.0.0.7'' ''root'' ''PRIVATE'' sys0) = Connected 1 \<and>
   Connected 1 \<noteq> DialFailed None (ctx_Err cancelled) \<and>
   take 2 (conn_trace (events (snd
     (dialRetry flaky_world background ''10.0.0.7'' ''root'' ''PRIVATE'' sys0)))) =
     [CDial 0 time_Second ''10.0.0.7:22'' ''root''
        (DialFailed (Some 2) (OtherError ''connection refused'')),
      CDial time_Second time_Second ''10.0.0.7:22'' ''root''
        (DialFailed (Some 2) (OtherError ''connection refused''))]"
proof -
  have "fst (dialRetry quiet_world cancelled ''10.0.0.7'' ''root'' ''PRIVATE'' sys0) = Connected 1"
    by (simp add: dialRetry_def dial_def quiet_world_def sys0_def HasSuffix_def
        emit_def advance_def Let_def)
  moreover have "ctx_done_by cancelled (clock sys0)"
    by (simp add: ctx_done_by_def cancelled_def sys0_def)
  ultimately show ?thesis
    by (simp add: flaky_run)
qed

section \<open>The file stager and Setup in the trace\<close>

lemma stager_calls_simps [simp]:
  "stager_calls [] = []" "stager_calls (xs @ ys) = stager_calls xs @ stager_calls ys"
  "stager_calls (ev # evs) =
     (case ev of
        EvMkdirAll p r \<Rightarrow> [(MkdirAll p, r)]
      | EvChmod p m r \<Rightarrow> [(Chmod p m, r)]
      | EvCreate p r \<Rightarrow> [(Create p, r)]
      | EvWrite p d r \<Rightarrow> [(Write p d, r)]
      | EvFileChmod p m r \<Rightarrow> [(FileChmod p m, r)]
      | EvFileClose p \<Rightarrow> [(FileClose p, None)]
      | _ \<Rightarrow> []) @ stager_calls evs"
  by (simp_all add: stager_calls_def)

lemma session_trace_simps [simp]:
  "session_trace [] = []" "session_trace (xs @ ys) = session_trace xs @ session_trace ys"
  "session_trace (ev # evs) = (if kind_of ev = KSession then [ev] else []) @ session_trace evs"
  by (simp_all add: session_trace_def)

lemma provisions_simps [simp]:
  "provisions [] = []" "provisions (xs @ ys) = provisions xs @ provisions ys"
  "provisions (ev # evs) =
     (case ev of EvProvision a i r \<Rightarrow> [(a, i, r)] | _ \<Rightarrow> []) @ provisions evs"
  by (simp_all add: provisions_def)

lemma no_stager: "\<forall>ev \<in> set evs. kind_of ev \<noteq> KStager \<Longrightarrow> stager_calls evs = []"
  by (induction evs) (auto split: event.splits)

lemma only_log_no_stager: "\<forall>ev \<in> set evs. kind_of ev = KLog \<Longrightarrow> stager_calls evs = []"
  by (rule no_stager) auto

lemma no_session: "\<forall>ev \<in> set evs. kind_of ev \<noteq> KSession \<Longrightarrow> session_trace evs = []"
  by (induction evs) auto


lemma staged_ok_append:
  "staged p1 tr1 None \<Longrightarrow> staged p2 tr2 r \<Longrightarrow> staged (p1 @ p2) (tr1 @ tr2) r"
proof (induction p1 arbitrary: tr1)
  case Nil
  then show ?case by simp
next
  case (Cons c p1)
  then show ?case
    by (cases tr1) (auto split: option.splits)
qed

lemma staged_failed_append:
  "staged p1 tr1 (Some e) \<Longrightarrow> staged (p1 @ p2) tr1 (Some e)"
proof (induction p1 arbitrary: tr1)
  case Nil
  then show ?case by simp
next
  case (Cons c p1)
  then show ?case
    by (cases tr1) (auto split: option.splits)
qed


lemma upload_trace:
  assumes "upload w p d m s = (r, s')"
  shows "\<exists>evs. events s' = events s @ evs \<and> (\<forall>ev \<in> set evs. kind_of ev = KStager) \<and>
           (\<forall>c a. EvSftpNewClient c a \<notin> set evs) \<and>
           staged (upload_calls p d m) (stager_calls evs) r"
proof (cases "w_Create w s p")
  case (Some e)
  with assms have "r = Some e" "s' = emit (EvCreate p (Some e)) s"
    by (auto simp: upload_def Let_def)
  then show ?thesis
    by (intro exI [of _ "[EvCreate p (Some e)]"]) (simp add: upload_calls_def)
next
  case None
  let ?s1 = "emit (EvCreate p None) s"
  show ?thesis
  proof (cases "w_Write w ?s1 p d")
    case (Some e)
    with assms None have "r = Some e"
      "s' = emit (EvFileClose p) (emit (EvWrite p d (Some e)) ?s1)"
      by (auto simp: upload_def Let_def)
    then show ?thesis
      by (intro exI [of _ "[EvCreate p None, EvWrite p d (Some e), EvFileClose p]"])
        (simp add: upload_calls_def)
  next
    case nw: None
    let ?s2 = "emit (EvWrite p d None) ?s1"
    from assms None nw have "r = w_FileChmod w ?s2 p m"
      "s' = emit (EvFileClose p) (emit (EvFileChmod p m r) ?s2)"
      by (auto simp: upload_def Let_def split: option.splits)
    then show ?thesis
      by (intro exI [of _ "[EvCreate p None, EvWrite p d None, EvFileChmod p m r, EvFileClose p]"])
        (simp add: upload_calls_def split: option.splits)
  qed
qed







lemma setup_calls_recorded [simp]:
  "setup_calls (spec\<lparr>Spec_id := i, Spec_ip := a\<rparr>) = setup_calls spec"
  by (simp add: setup_calls_def)



section \<open>Setup: the provisioned machine is recorded\<close>





section \<open>Setup: the order of staging\<close>





section \<open>Run in the trace\<close>

lemma commands_simps [simp]:
  "commands [] = []" "commands (xs @ ys) = commands xs @ commands ys"
  "commands (ev # evs) =
     (case ev of EvSessionRun t d c oc \<Rightarrow> [c] | _ \<Rightarrow> []) @ commands evs"
  by (simp_all add: commands_def)

lemma commands_session_trace: "commands (session_trace evs) = commands evs"
  by (induction evs) (auto split: event.splits)

lemma select_answered_append:
  "select_answered w ctx hist (xs @ ys) \<longleftrightarrow>
     select_answered w ctx hist xs \<and> select_answered w ctx (hist @ xs) ys"
  by (induction xs arbitrary: hist) auto

lemma no_select: "\<forall>ev \<in> set evs. kind_of ev \<noteq> KSession \<Longrightarrow> select_answered w ctx hist evs"
  by (induction evs arbitrary: hist) (auto split: event.splits)

lemma select_answered_mem:
  "select_answered w ctx hist evs \<Longrightarrow> EvSessionRun t d c oc \<in> set evs \<Longrightarrow>
   (oc = RunCancelled \<longleftrightarrow> ctx_done_by ctx (t + d)) \<and>
   (\<exists>pre post. evs = pre @ EvSessionRun t d c oc # post \<and>
      d = snd (w_SessionRun w \<lparr>clock = t, events = hist @ pre\<rparr> c) \<and>
      (\<forall>r0. oc = RunDone r0 \<longrightarrow>
         r0 = fst (w_SessionRun w \<lparr>clock = t, events = hist @ pre\<rparr> c)))"
proof (induction evs arbitrary: hist)
  case Nil
  then show ?case by simp
next
  case (Cons ev evs)
  show ?case
  proof (cases "ev = EvSessionRun t d c oc")
    case True
    with Cons.prems(1) have "d = snd (w_SessionRun w \<lparr>clock = t, events = hist\<rparr> c)"
      "oc = (if ctx_done_by ctx (t + d) then RunCancelled
             else RunDone (fst (w_SessionRun w \<lparr>clock = t, events = hist\<rparr> c)))"
      by simp_all
    with True show ?thesis
      by (intro conjI exI [of _ "[]"] exI [of _ evs]) (auto split: if_splits)
  next
    case False
    with Cons.prems have "select_answered w ctx (hist @ [ev]) evs"
      "EvSessionRun t d c oc \<in> set evs"
      by simp_all
    from Cons.IH [OF this] obtain pre post where
      oc: "oc = RunCancelled \<longleftrightarrow> ctx_done_by ctx (t + d)"
      and sp: "evs = pre @ EvSessionRun t d c oc # post"
      and dd: "d = snd (w_SessionRun w \<lparr>clock = t, events = (hist @ [ev]) @ pre\<rparr> c)"
      and rr: "\<forall>r0. oc = RunDone r0 \<longrightarrow>
         r0 = fst (w_SessionRun w \<lparr>clock = t, events = (hist @ [ev]) @ pre\<rparr> c)"
      by blast
    from sp dd rr have "ev # evs = (ev # pre) @ EvSessionRun t d c oc # post \<and>
      d = snd (w_SessionRun w \<lparr>clock = t, events = hist @ ev # pre\<rparr> c) \<and>
      (\<forall>r0. oc = RunDone r0 \<longrightarrow>
         r0 = fst (w_SessionRun w \<lparr>clock = t, events = hist @ ev # pre\<rparr> c))"
      by simp
    with oc show ?thesis by blast
  qed
qed

lemma Run_uploads_trace:
  "Run_uploads w g spec step files s = (r, s') \<Longrightarrow>
   \<exists>evs. events s' = events s @ evs \<and>
         (\<forall>ev \<in> set evs. kind_of ev = KStager \<or> kind_of ev = KLog) \<and>
         (\<forall>c a. EvSftpNewClient c a \<notin> set evs) \<and>
         staged (concat (map (\<lambda>f. upload_calls (File_Path f)
                        (writeWorkdir g (Step_WorkingDir step)
                         @ writeSecrets g (Platform_OS (Spec_Platform spec)) (Step_Secrets step)
                         @ writeEnviron g (Platform_OS (Spec_Platform spec)) (Step_Envs step)
                         @ File_Data f)
                        (File_Mode f)) files)) (stager_calls evs) r"
proof (induction files arbitrary: s)
  case Nil
  then show ?case by simp
next
  case (Cons f fs)
  let ?buf = "\<lambda>f. writeWorkdir g (Step_WorkingDir step)
                @ writeSecrets g (Platform_OS (Spec_Platform spec)) (Step_Secrets step)
                @ writeEnviron g (Platform_OS (Spec_Platform spec)) (Step_Envs step)
                @ File_Data f"
  let ?plan = "\<lambda>fs. concat (map (\<lambda>f. upload_calls (File_Path f) (?buf f) (File_Mode f)) fs)"
  obtain r1 s1 where u: "upload w (File_Path f) (?buf f) (File_Mode f) s = (r1, s1)"
    by force
  from upload_trace [OF u] obtain evs1 where e1: "events s1 = events s @ evs1"
    and k1: "\<forall>ev \<in> set evs1. kind_of ev = KStager"
    and n1: "\<forall>c a. EvSftpNewClient c a \<notin> set evs1"
    and st1: "staged (upload_calls (File_Path f) (?buf f) (File_Mode f)) (stager_calls evs1) r1"
    by blast
  show ?case
  proof (cases r1)
    case (Some e)
    with Cons.prems u have res: "r = Some e" "s' = logger ErrorLevel ''cannot write file'' s1"
      by (auto simp: Let_def)
    from st1 Some have "staged (upload_calls (File_Path f) (?buf f) (File_Mode f) @ ?plan fs)
        (stager_calls evs1) (Some e)"
      by (simp add: staged_failed_append)
    with res e1 k1 n1 show ?thesis
      by (intro exI [of _ "evs1 @ [EvLog ErrorLevel ''cannot write file'']"]) auto
  next
    case None
    with Cons.prems u have "Run_uploads w g spec step fs s1 = (r, s')"
      by (auto simp: Let_def)
    from Cons.IH [OF this] obtain evs where e2: "events s' = events s1 @ evs"
      and k2: "\<forall>ev \<in> set evs. kind_of ev = KStager \<or> kind_of ev = KLog"
      and n2: "\<forall>c a. EvSftpNewClient c a \<notin> set evs"
      and st2: "staged (?plan fs) (stager_calls evs) r"
      by blast
    from st1 None st2 have "staged (upload_calls (File_Path f) (?buf f) (File_Mode f) @ ?plan fs)
        (stager_calls evs1 @ stager_calls evs) r"
      by (simp add: staged_ok_append)
    with e1 e2 k1 k2 n1 n2 show ?thesis
      by (intro exI [of _ "evs1 @ evs"]) auto
  qed
qed

lemma Run_session_unfold:
  assumes "w_SessionRun w (logger DebugLevel ''ssh session started'' s) (command_line step) = (r0, d)"
  shows "Run_session w ctx step s =
      (if ctx_done_by ctx (clock s + d)
       then Run_cancelled w ctx (command_line step) d (the (ctx_Done ctx))
              (logger DebugLevel ''ssh session started'' s)
       else Run_finished (command_line step) r0 d (logger DebugLevel ''ssh session started'' s))"
  using assms unfolding command_line_def
  by (simp add: Run_session_def Let_def ctx_done_by_def split: option.splits)

lemma Run_session_trace:
  assumes "Run_session w ctx step s = (st, r, s')"
  shows "\<exists>evs. events s' = events s @ evs \<and>
           (\<forall>ev \<in> set evs. kind_of ev = KSession \<or> kind_of ev = KLog) \<and>
           select_answered w ctx (events s) evs \<and>
           ((\<exists>t d r0. session_trace evs = [EvSessionRun t d (command_line step) (RunDone r0)] \<and>
                r = r0 \<and>
                st = Some \<lparr>ExitCode = exit_code r0, Exited = True, OOMKilled = False\<rparr>) \<or>
            (\<exists>t d sg. session_trace evs =
                  [EvSessionRun t d (command_line step) RunCancelled, EvSignalKill sg] \<and>
                st = None \<and> r = Some (ctx_Err ctx)))"
proof -
  let ?cmd = "command_line step"
  let ?lg = "EvLog DebugLevel ''ssh session started''"
  let ?s1 = "logger DebugLevel ''ssh session started'' s"
  obtain r0 d where sr: "w_SessionRun w ?s1 ?cmd = (r0, d)"
    by force
  have s1: "?s1 = \<lparr>clock = clock s, events = events s @ [?lg]\<rparr>"
    by (simp add: logger_def emit_def sys_upd)
  from sr s1 have ans: "w_SessionRun w \<lparr>clock = clock s, events = events s @ [?lg]\<rparr> ?cmd = (r0, d)"
    by simp
  show ?thesis
  proof (cases "ctx_done_by ctx (clock s + d)")
    case False
    with assms sr have "Run_finished ?cmd r0 d ?s1 = (st, r, s')"
      by (simp add: Run_session_unfold)
    then have "r = r0" "st = Some \<lparr>ExitCode = exit_code r0, Exited = True, OOMKilled = False\<rparr>"
      "events s' = events s @ [?lg, EvSessionRun (clock s) d ?cmd (RunDone r0),
          EvLog DebugLevel ''ssh session finished'']"
      by (auto simp: Run_finished_def Let_def exit_code_def split: option.splits err.splits)
    with False ans show ?thesis
      by (intro exI [of _ "[?lg, EvSessionRun (clock s) d ?cmd (RunDone r0),
          EvLog DebugLevel ''ssh session finished'']"]) auto
  next
    case True
    with assms sr have "Run_cancelled w ctx ?cmd d (the (ctx_Done ctx)) ?s1 = (st, r, s')"
      by (simp add: Run_session_unfold)
    then obtain sg evs where "st = None" "r = Some (ctx_Err ctx)"
      "events s' = events s @ [?lg, EvSessionRun (clock s) d ?cmd RunCancelled,
          EvSignalKill sg] @ evs"
      "\<forall>ev \<in> set evs. kind_of ev = KLog"
      by (auto simp: Run_cancelled_def Let_def split: option.splits)
    with True ans show ?thesis
      by (intro exI [of _ "[?lg, EvSessionRun (clock s) d ?cmd RunCancelled,
          EvSignalKill sg] @ evs"] conjI disjI2 exI [of _ sg] exI [of _ "clock s"] exI [of _ d])
        (auto simp: no_session no_select select_answered_append)
  qed
qed


lemma Run_staged_trace:
  assumes "Run_staged w g ctx c spec step s = (st, r, s')"
  shows "\<exists>evs. events s' = events s @ evs \<and>
           (\<forall>ev \<in> set evs. kind_of ev = KStager \<or> kind_of ev = KLog \<or> kind_of ev = KSession) \<and>
           (\<forall>c a. EvSftpNewClient c a \<notin> set evs) \<and>
           select_answered w ctx (events s) evs \<and>
           (\<exists>ru. staged (run_calls g spec step) (stager_calls evs) ru \<and>
              (case ru of
                 Some e \<Rightarrow> r = Some e \<and> st = None \<and> session_trace evs = []
               | None \<Rightarrow> session_outcome ctx step (session_trace evs) st r))"
proof -
  obtain r1 s1 where u: "Run_uploads w g spec step (Step_Files step) s = (r1, s1)"
    by force
  from Run_uploads_trace [OF u] obtain evs1 where e1: "events s1 = events s @ evs1"
    and k1: "\<forall>ev \<in> set evs1. kind_of ev = KStager \<or> kind_of ev = KLog"
    and n1: "\<forall>c a. EvSftpNewClient c a \<notin> set evs1"
    and up1: "staged (run_calls g spec step) (stager_calls evs1) r1"
    unfolding run_calls_def by blast
  from k1 have ks1: "\<forall>ev \<in> set evs1. kind_of ev \<noteq> KSession" by auto
  then have ns1: "session_trace evs1 = []" by (simp add: no_session)
  from ks1 have sa1: "select_answered w ctx (events s) evs1" by (rule no_select)
  show ?thesis
  proof (cases r1)
    case (Some e)
    with assms u have "st = None" "r = Some e" "s' = s1"
      by (auto simp: Run_staged_def)
    then show ?thesis using e1 k1 n1 up1 ns1 sa1 Some
      by (intro exI [of _ evs1] conjI exI [of _ "Some e"]) auto
  next
    case None
    let ?s2 = "emit (EvNewSession (w_NewSession w s1 c)) s1"
    show ?thesis
    proof (cases "w_NewSession w s1 c")
      case (Some e)
      with assms u None have "st = None" "r = Some e" "s' = ?s2"
        by (auto simp: Run_staged_def Let_def)
      then show ?thesis using e1 k1 n1 up1 ns1 sa1 Some None
        by (intro exI [of _ "evs1 @ [EvNewSession (Some e)]"] conjI exI [of _ None])
          (auto simp: session_outcome_def select_answered_append)
    next
      case nn: None
      obtain st3 r3 s3 where rs: "Run_session w ctx step ?s2 = (st3, r3, s3)"
        by (metis prod_cases3)
      from Run_session_trace [OF rs] obtain evs3 where e3: "events s3 = events ?s2 @ evs3"
        and k3: "\<forall>ev \<in> set evs3. kind_of ev = KSession \<or> kind_of ev = KLog"
        and sa3: "select_answered w ctx (events ?s2) evs3"
        and rn: "(\<exists>t d r0. session_trace evs3 =
                    [EvSessionRun t d (command_line step) (RunDone r0)] \<and> r3 = r0 \<and>
                st3 = Some \<lparr>ExitCode = exit_code r0, Exited = True, OOMKilled = False\<rparr>) \<or>
            (\<exists>t d sg. session_trace evs3 =
                  [EvSessionRun t d (command_line step) RunCancelled, EvSignalKill sg] \<and>
                st3 = None \<and> r3 = Some (ctx_Err ctx))"
        by blast
      from k3 have kt3: "\<forall>ev \<in> set evs3. kind_of ev \<noteq> KStager" by auto
      then have nu3: "stager_calls evs3 = []" by (simp add: no_stager)
      from kt3 have nf3: "\<forall>c a. EvSftpNewClient c a \<notin> set evs3"
        by (metis kind_of.simps(7))
      from assms u None nn rs have res: "st = st3" "r = r3" "s' = emit EvSessionClose s3"
        by (auto simp: Run_staged_def Let_def)
      let ?evs = "evs1 @ [EvNewSession None] @ evs3 @ [EvSessionClose]"
      have ev: "events s' = events s @ ?evs"
        using res e1 e3 nn by simp
      have kk: "\<forall>ev \<in> set ?evs. kind_of ev = KStager \<or> kind_of ev = KLog \<or> kind_of ev = KSession"
        using k1 k3 by auto
      have nf: "\<forall>c a. EvSftpNewClient c a \<notin> set ?evs"
        using n1 nf3 by auto
      have sa: "select_answered w ctx (events s) ?evs"
        using sa1 sa3 e1 nn by (simp add: select_answered_append)
      have sc: "stager_calls ?evs = stager_calls evs1"
        using nu3 by simp
      have so: "session_outcome ctx step (session_trace ?evs) st r"
        using rn res ns1 unfolding session_outcome_def by auto
      from up1 None sc so have "\<exists>ru. staged (run_calls g spec step) (stager_calls ?evs) ru \<and>
              (case ru of
                 Some e \<Rightarrow> r = Some e \<and> st = None \<and> session_trace ?evs = []
               | None \<Rightarrow> session_outcome ctx step (session_trace ?evs) st r)"
        by (intro exI [of _ None]) simp
      with ev kk nf sa show ?thesis
        by blast
    qed
  qed
qed

text \<open>What \<^verbatim>\<open>Run\<close> leaves in the trace and returns: either no file transfer client
  was made, and then nothing was uploaded, no session opened and an error returned;
  or one was made, the uploads of the step were carried out in order, and the session
  was opened only when all of them had succeeded.\<close>

lemma Run_trace:
  assumes "Run w g ctx e spec step s = (st, r, s')"
  shows "\<exists>evs. events s' = events s @ evs \<and>
           select_answered w ctx (events s) evs \<and>
           (stager_calls evs = [] \<and> session_trace evs = [] \<and> st = None \<and> r \<noteq> None \<and>
              (\<forall>c. EvSftpNewClient c None \<notin> set evs) \<or>
            (\<exists>c. EvSftpNewClient c None \<in> set evs) \<and>
            (\<exists>ru. staged (run_calls g spec step) (stager_calls evs) ru \<and>
              (case ru of
                 Some e \<Rightarrow> r = Some e \<and> st = None \<and> session_trace evs = []
               | None \<Rightarrow> session_outcome ctx step (session_trace evs) st r)))"
proof -
  obtain r1 s1 where d: "dial w (Spec_ip spec) (Server_User (Spec_Server spec)) (privatekey e) s
      = (r1, s1)"
    by force
  from d have "\<exists>evs1. events s1 = events s @ evs1 \<and> (\<forall>ev \<in> set evs1. kind_of ev = KConn)"
    by (cases rule: dial_cases) auto
  then obtain evs1 where e1: "events s1 = events s @ evs1"
    and k1: "\<forall>ev \<in> set evs1. kind_of ev = KConn"
    by blast
  from k1 have ks: "\<forall>ev \<in> set evs1. kind_of ev \<noteq> KSession"
    and kt: "\<forall>ev \<in> set evs1. kind_of ev \<noteq> KStager"
    by auto
  then have n1: "session_trace evs1 = []" "stager_calls evs1 = []"
    by (simp_all add: no_session no_stager)
  from ks have sa1: "select_answered w ctx (events s) evs1" by (rule no_select)
  from kt have nf1: "\<forall>c a. EvSftpNewClient c a \<notin> set evs1"
    by (metis kind_of.simps(7))
  show ?thesis
  proof (cases r1)
    case (DialFailed c err)
    with assms d have "st = None" "r = Some err" "s' = s1"
      by (auto simp: Run_def)
    then show ?thesis using e1 n1 sa1 nf1
      by (intro exI [of _ evs1]) auto
  next
    case (Connected c)
    with assms d have rc: "Run_connected w g ctx c spec step s1 = (st, r, s')"
      by (auto simp: Run_def)
    show ?thesis
    proof (cases "w_sftpNewClient w s1 c")
      case (Some err)
      with rc have "st = None" "r = Some err"
        "s' = client_Close c (emit (EvSftpNewClient c (Some err)) s1)"
        by (auto simp: Run_connected_def Let_def)
      then show ?thesis using e1 n1 sa1 nf1
        by (intro exI [of _ "evs1 @ [EvSftpNewClient c (Some err), EvClientClose c]"])
          (auto simp: select_answered_append)
    next
      case None
      let ?s2 = "emit (EvSftpNewClient c None) s1"
      obtain st2 r2 s2 where g: "Run_staged w g ctx c spec step ?s2 = (st2, r2, s2)"
        by (metis prod_cases3)
      from Run_staged_trace [OF g] obtain evs2 ru where e2: "events s2 = events ?s2 @ evs2"
        and sa2: "select_answered w ctx (events ?s2) evs2"
        and up2: "staged (run_calls g spec step) (stager_calls evs2) ru"
        and o2: "case ru of
                 Some e \<Rightarrow> r2 = Some e \<and> st2 = None \<and> session_trace evs2 = []
               | None \<Rightarrow> session_outcome ctx step (session_trace evs2) st2 r2"
        by blast
      from rc None g have res: "st = st2" "r = r2" "s' = client_Close c (emit EvSftpClose s2)"
        by (auto simp: Run_connected_def Let_def)
      let ?evs = "evs1 @ [EvSftpNewClient c None] @ evs2 @ [EvSftpClose, EvClientClose c]"
      have ev: "events s' = events s @ ?evs"
        using res e1 e2 by simp
      have sa: "select_answered w ctx (events s) ?evs"
        using sa1 sa2 e1 by (simp add: select_answered_append)
      have sc: "stager_calls ?evs = stager_calls evs2" "session_trace ?evs = session_trace evs2"
        using n1 by simp_all
      have "\<exists>ru. staged (run_calls g spec step) (stager_calls ?evs) ru \<and>
              (case ru of
                 Some e \<Rightarrow> r = Some e \<and> st = None \<and> session_trace ?evs = []
               | None \<Rightarrow> session_outcome ctx step (session_trace ?evs) st r)"
        unfolding sc using up2 o2 res by blast
      moreover have "\<exists>c. EvSftpNewClient c None \<in> set ?evs"
        by auto
      ultimately show ?thesis using ev sa
        by blast
    qed
  qed
qed


lemma mem_session_trace:
  "ev \<in> set (session_trace evs) \<longleftrightarrow> ev \<in> set evs \<and> kind_of ev = KSession"
  by (simp add: session_trace_def)

lemma Run_session_cases:
  assumes "Run w g ctx e spec step s = (st, r, s')"
  shows "events s' = events s @ new_events s s' \<and>
         select_answered w ctx (events s) (new_events s s') \<and>
         (session_trace (new_events s s') = [] \<and> st = None \<and> r \<noteq> None \<or>
          session_outcome ctx step (session_trace (new_events s s')) st r)"
proof -
  from Run_trace [OF assms] obtain evs where ev: "events s' = events s @ evs"
    and sa: "select_answered w ctx (events s) evs"
    and o: "stager_calls evs = [] \<and> session_trace evs = [] \<and> st = None \<and> r \<noteq> None \<and>
              (\<forall>c. EvSftpNewClient c None \<notin> set evs) \<or>
            (\<exists>c. EvSftpNewClient c None \<in> set evs) \<and>
            (\<exists>ru. staged (run_calls g spec step) (stager_calls evs) ru \<and>
              (case ru of
                 Some e \<Rightarrow> r = Some e \<and> st = None \<and> session_trace evs = []
               | None \<Rightarrow> session_outcome ctx step (session_trace evs) st r))"
    by blast
  from ev have ne: "new_events s s' = evs"
    by (rule new_events_append)
  from o have "session_trace evs = [] \<and> st = None \<and> r \<noteq> None \<or>
          session_outcome ctx step (session_trace evs) st r"
    by (auto split: option.splits)
  with ev sa ne show ?thesis by simp
qed

lemma strings_Join_Cons: "strings_Join (a # as) sep = a @ concat (map (\<lambda>s. sep @ s) as)"
  by (cases as) simp_all

lemma exit_code_cases:
  "exit_code None = 0" "exit_code (Some (ExitError n)) = n"
  "(\<forall>n. e \<noteq> ExitError n) \<Longrightarrow> exit_code (Some e) = 255"
  by (auto simp: exit_code_def split: err.splits)

lemmas run_defs = Run_def Run_connected_def Run_staged_def Run_session_def Run_finished_def
  Run_cancelled_def upload_def dial_def HasSuffix_def Let_def quiet_world_def engine0_def
  spec0_def spec7_def step0_def sys0_def emit_def advance_def logger_def client_Close_def
  time_Second_def marker_scripts_def

lemma quiet_run:
  "Run quiet_world marker_scripts background engine0 spec7 step0 sys0 =
     (Some \<lparr>ExitCode = 0, Exited = True, OOMKilled = False\<rparr>, None,
      \<lparr>clock = 2000000000, events =
         [EvDial 0 1000000000 ''10.0.0.7:22'' ''root'' (Connected 1),
          EvSftpNewClient 1 None,
          EvCreate ''/tmp/drone/script'' None,
          EvWrite ''/tmp/drone/script''
            ''[workdir /tmp/drone-temp][secrets linux][environ linux]echo hello'' None,
          EvFileChmod ''/tmp/drone/script'' 448 None,
          EvFileClose ''/tmp/drone/script'',
          EvNewSession None,
          EvLog DebugLevel ''ssh session started'',
          EvSessionRun 1000000000 1000000000 ''/bin/sh -e /tmp/drone/script'' (RunDone None),
          EvLog DebugLevel ''ssh session finished'',
          EvSessionClose,
          EvSftpClose,
          EvClientClose 1]\<rparr>)"
  by (simp add: run_defs background_def)

lemma exit3_run:
  "Run exit3_world marker_scripts background engine0 spec7 step0 sys0 =
     (Some \<lparr>ExitCode = 3, Exited = True, OOMKilled = False\<rparr>, Some (ExitError 3),
      \<lparr>clock = 2000000000, events =
         [EvDial 0 1000000000 ''10.0.0.7:22'' ''root'' (Connected 1),
          EvSftpNewClient 1 None,
          EvCreate ''/tmp/drone/script'' None,
          EvWrite ''/tmp/drone/script''
            ''[workdir /tmp/drone-temp][secrets linux][environ linux]echo hello'' None,
          EvFileChmod ''/tmp/drone/script'' 448 None,
          EvFileClose ''/tmp/drone/script'',
          EvNewSession None,
          EvLog DebugLevel ''ssh session started'',
          EvSessionRun 1000000000 1000000000 ''/bin/sh -e /tmp/drone/script'' (RunDone (Some (ExitError 3))),
          EvLog DebugLevel ''ssh session finished'',
          EvSessionClose,
          EvSftpClose,
          EvClientClose 1]\<rparr>)"
  by (simp add: run_defs exit3_world_def background_def)

lemma broken_pipe_run:
  "Run broken_pipe_world marker_scripts background engine0 spec7 step0 sys0 =
     (Some \<lparr>ExitCode = 255, Exited = True, OOMKilled = False\<rparr>,
      Some (OtherError ''broken pipe''),
      \<lparr>clock = 2000000000, events =
         [EvDial 0 1000000000 ''10.0.0.7:22'' ''root'' (Connected 1),
          EvSftpNewClient 1 None,
          EvCreate ''/tmp/drone/script'' None,
          EvWrite ''/tmp/drone/script''
            ''[workdir /tmp/drone-temp][secrets linux][environ linux]echo hello'' None,
          EvFileChmod ''/tmp/drone/script'' 448 None,
          EvFileClose ''/tmp/drone/script'',
          EvNewSession None,
          EvLog DebugLevel ''ssh session started'',
          EvSessionRun 1000000000 1000000000 ''/bin/sh -e /tmp/drone/script'' (RunDone (Some (OtherError ''broken pipe''))),
          EvLog DebugLevel ''ssh session finished'',
          EvSessionClose,
          EvSftpClose,
          EvClientClose 1]\<rparr>)"
  by (simp add: run_defs broken_pipe_world_def background_def)

lemma cancelled_run:
  "Run quiet_world marker_scripts cancel_soon engine0 spec7 step0 sys0 =
     (None, Some Canceled,
      \<lparr>clock = 1500000000, events =
         [EvDial 0 1000000000 ''10.0.0.7:22'' ''root'' (Connected 1),
          EvSftpNewClient 1 None,
          EvCreate ''/tmp/drone/script'' None,
          EvWrite ''/tmp/drone/script''
            ''[workdir /tmp/drone-temp][secrets linux][environ linux]echo hello'' None,
          EvFileChmod ''/tmp/drone/script'' 448 None,
          EvFileClose ''/tmp/drone/script'',
          EvNewSession None,
          EvLog DebugLevel ''ssh session started'',
          EvSessionRun 1000000000 1000000000 ''/bin/sh -e /tmp/drone/script'' RunCancelled,
          EvSignalKill None,
          EvLog DebugLevel ''ssh session killed'',
          EvSessionClose,
          EvSftpClose,
          EvClientClose 1]\<rparr>)"
  by (simp add: run_defs cancel_soon_def)

lemma no_args_run:
  "Run quiet_world marker_scripts background engine0 spec7 (step0\<lparr>Step_Args := []\<rparr>) sys0 =
     (Some \<lparr>ExitCode = 0, Exited = True, OOMKilled = False\<rparr>, None,
      \<lparr>clock = 2000000000, events =
         [EvDial 0 1000000000 ''10.0.0.7:22'' ''root'' (Connected 1),
          EvSftpNewClient 1 None,
          EvCreate ''/tmp/drone/script'' None,
          EvWrite ''/tmp/drone/script''
            ''[workdir /tmp/drone-temp][secrets linux][environ linux]echo hello'' None,
          EvFileChmod ''/tmp/drone/script'' 448 None,
          EvFileClose ''/tmp/drone/script'',
          EvNewSession None,
          EvLog DebugLevel ''ssh session started'',
          EvSessionRun 1000000000 1000000000 ''/bin/sh '' (RunDone None),
          EvLog DebugLevel ''ssh session finished'',
          EvSessionClose,
          EvSftpClose,
          EvClientClose 1]\<rparr>)"
  by (simp add: run_defs background_def)

section \<open>Run: the state of a completed command\<close>

text \<open>Claim C4. The remote command is recorded as completed only when the context
  was not done by the instant it returned, with the result the environment gives
  (and whenever the session was opened, the command was started). When it has
  completed, \<^verbatim>\<open>Run\<close> returns the command's error together with a state that has
  \<^verbatim>\<open>Exited\<close> set and \<^verbatim>\<open>OOMKilled\<close> unset; the exit code is 0 when the command
  returned no error, the reported exit status when the error is an exit error, and
  255 for any other error. The session was opened, the command run once and the
  session closed. A state is returned in no other case, and whenever \<^verbatim>\<open>Run\<close> returns
  no error it returns a state.\<close>

theorem Run_completed_state:
  assumes "Run w g ctx e spec step s = (st, r, s')"
  shows "events s' = events s @ new_events s s' \<and>
     select_answered w ctx (events s) (new_events s s') \<and>
     (\<forall>t d c r0. EvSessionRun t d c (RunDone r0) \<in> set (new_events s s') \<longrightarrow>
        \<not> ctx_done_by ctx (t + d) \<and> r = r0 \<and>
        session_trace (new_events s s') =
          [EvNewSession None, EvSessionRun t d c (RunDone r0), EvSessionClose] \<and>
        (\<exists>state. st = Some state \<and> Exited state \<and> \<not> OOMKilled state \<and>
           (r0 = None \<longrightarrow> ExitCode state = 0) \<and>
           (\<forall>n. r0 = Some (ExitError n) \<longrightarrow> ExitCode state = n) \<and>
           (\<forall>x. r0 = Some x \<and> (\<forall>n. x \<noteq> ExitError n) \<longrightarrow> ExitCode state = 255))) \<and>
     (st \<noteq> None \<longrightarrow> (\<exists>t d c. EvSessionRun t d c (RunDone r) \<in> set (new_events s s'))) \<and>
     (r = None \<longrightarrow> st \<noteq> None) \<and>
     (EvNewSession None \<in> set (new_events s s') \<longrightarrow>
        (\<exists>t d c oc. EvSessionRun t d c oc \<in> set (new_events s s')))"
proof -
  let ?new = "new_events s s'"
  from Run_session_cases [OF assms] have ev: "events s' = events s @ ?new"
    and sa: "select_answered w ctx (events s) ?new"
    and o: "session_trace ?new = [] \<and> st = None \<and> r \<noteq> None \<or>
          session_outcome ctx step (session_trace ?new) st r"
    by simp_all
  have a: "\<not> ctx_done_by ctx (t + d) \<and> r = r0 \<and>
        session_trace ?new = [EvNewSession None, EvSessionRun t d c (RunDone r0), EvSessionClose] \<and>
        (\<exists>state. st = Some state \<and> Exited state \<and> \<not> OOMKilled state \<and>
           (r0 = None \<longrightarrow> ExitCode state = 0) \<and>
           (\<forall>n. r0 = Some (ExitError n) \<longrightarrow> ExitCode state = n) \<and>
           (\<forall>x. r0 = Some x \<and> (\<forall>n. x \<noteq> ExitError n) \<longrightarrow> ExitCode state = 255))"
    if m: "EvSessionRun t d c (RunDone r0) \<in> set ?new" for t d c r0
  proof -
    from select_answered_mem [OF sa m] have nd: "\<not> ctx_done_by ctx (t + d)"
      by simp
    from m have ms: "EvSessionRun t d c (RunDone r0) \<in> set (session_trace ?new)"
      by (simp add: mem_session_trace)
    then have "session_trace ?new \<noteq> []"
      by (metis empty_iff empty_set)
    with o have so: "session_outcome ctx step (session_trace ?new) st r"
      by simp
    from so ms have tr: "session_trace ?new =
        [EvNewSession None, EvSessionRun t d c (RunDone r0), EvSessionClose]"
      and res: "r = r0" "st = Some \<lparr>ExitCode = exit_code r0, Exited = True, OOMKilled = False\<rparr>"
      unfolding session_outcome_def by auto
    from res(2) have "\<exists>state. st = Some state \<and> Exited state \<and> \<not> OOMKilled state \<and>
           (r0 = None \<longrightarrow> ExitCode state = 0) \<and>
           (\<forall>n. r0 = Some (ExitError n) \<longrightarrow> ExitCode state = n) \<and>
           (\<forall>x. r0 = Some x \<and> (\<forall>n. x \<noteq> ExitError n) \<longrightarrow> ExitCode state = 255)"
      by (auto simp: exit_code_cases)
    with nd tr res(1) show ?thesis by simp
  qed
  have b: "\<exists>t d c. EvSessionRun t d c (RunDone r) \<in> set ?new" if "st \<noteq> None"
  proof -
    from o that obtain t d where
      "session_trace ?new = [EvNewSession None, EvSessionRun t d (command_line step) (RunDone r),
         EvSessionClose]"
      unfolding session_outcome_def by auto
    then have "EvSessionRun t d (command_line step) (RunDone r) \<in> set (session_trace ?new)"
      by simp
    then show ?thesis
      by (auto simp: mem_session_trace)
  qed
  have c: "\<exists>t d c oc. EvSessionRun t d c oc \<in> set ?new" if "EvNewSession None \<in> set ?new"
  proof -
    from that have "EvNewSession None \<in> set (session_trace ?new)"
      by (simp add: mem_session_trace)
    with o obtain t d oc where
      "EvSessionRun t d (command_line step) oc \<in> set (session_trace ?new)"
      unfolding session_outcome_def by auto
    then show ?thesis
      by (auto simp: mem_session_trace)
  qed
  have n: "r = None \<longrightarrow> st \<noteq> None"
    using o unfolding session_outcome_def by auto
  from ev sa a b n c show ?thesis
    by blast
qed

theorem Run_completed_state_witness:
  "Run quiet_world marker_scripts background engine0 spec7 step0 sys0 =
     (Some \<lparr>ExitCode = 0, Exited = True, OOMKilled = False\<rparr>, None,
      snd (snd (Run quiet_world marker_scripts background engine0 spec7 step0 sys0))) \<and>
   Run exit3_world marker_scripts background engine0 spec7 step0 sys0 =
     (Some \<lparr>ExitCode = 3, Exited = True, OOMKilled = False\<rparr>, Some (ExitError 3),
      snd (snd (Run exit3_world marker_scripts background engine0 spec7 step0 sys0))) \<and>
   Run broken_pipe_world marker_scripts background engine0 spec7 step0 sys0 =
     (Some \<lparr>ExitCode = 255, Exited = True, OOMKilled = False\<rparr>,
      Some (OtherError ''broken pipe''),
      snd (snd (Run broken_pipe_world marker_scripts background engine0 spec7 step0 sys0))) \<and>
   session_trace (new_events sys0
      (snd (snd (Run exit3_world marker_scripts background engine0 spec7 step0 sys0)))) =
     [EvNewSession None,
      EvSessionRun 1000000000 1000000000 ''/bin/sh -e /tmp/drone/script''
        (RunDone (Some (ExitError 3))),
      EvSessionClose] \<and>
   \<not> ctx_done_by background (1000000000 + 1000000000)"
proof -
  let ?s' = "snd (snd (Run exit3_world marker_scripts background engine0 spec7 step0 sys0))"
  have m: "EvSessionRun 1000000000 1000000000 ''/bin/sh -e /tmp/drone/script''
      (RunDone (Some (ExitError 3))) \<in> set (new_events sys0 ?s')"
    unfolding exit3_run by (simp add: new_events_def sys0_def)
  from Run_completed_state [OF exit3_run] m
  have "\<not> ctx_done_by background (1000000000 + 1000000000) \<and>
      session_trace (new_events sys0 ?s') =
        [EvNewSession None,
         EvSessionRun 1000000000 1000000000 ''/bin/sh -e /tmp/drone/script''
           (RunDone (Some (ExitError 3))),
         EvSessionClose]"
    unfolding exit3_run snd_conv by blast
  then show ?thesis
    by (simp add: quiet_run exit3_run broken_pipe_run)
qed

section \<open>Run: cancellation\<close>

text \<open>Claim C5. The wait for the remote command is recorded as given up only when
  the context was done no later than the instant at which the command would have
  returned. Then \<^verbatim>\<open>Run\<close> returns no state and the context's error, and the kill signal
  was sent to the session after the command was started and before the session was
  closed; whether the signal could be delivered does not change what is returned. The
  kill signal is sent in no other case.\<close>

theorem Run_cancelled_error:
  assumes "Run w g ctx e spec step s = (st, r, s')"
  shows "events s' = events s @ new_events s s' \<and>
     select_answered w ctx (events s) (new_events s s') \<and>
     (\<forall>t d c. EvSessionRun t d c RunCancelled \<in> set (new_events s s') \<longrightarrow>
        ctx_done_by ctx (t + d) \<and> st = None \<and> r = Some (ctx_Err ctx) \<and>
        (\<exists>sg. session_trace (new_events s s') =
           [EvNewSession None, EvSessionRun t d c RunCancelled, EvSignalKill sg,
            EvSessionClose])) \<and>
     (\<forall>sg. EvSignalKill sg \<in> set (new_events s s') \<longrightarrow>
        (\<exists>t d c. EvSessionRun t d c RunCancelled \<in> set (new_events s s'))) \<and>
     (EvNewSession None \<in> set (new_events s s') \<longrightarrow>
        (\<exists>t d c oc. EvSessionRun t d c oc \<in> set (new_events s s')))"
proof -
  let ?new = "new_events s s'"
  from Run_session_cases [OF assms] have ev: "events s' = events s @ ?new"
    and sa: "select_answered w ctx (events s) ?new"
    and o: "session_trace ?new = [] \<and> st = None \<and> r \<noteq> None \<or>
          session_outcome ctx step (session_trace ?new) st r"
    by simp_all
  have a: "ctx_done_by ctx (t + d) \<and> st = None \<and> r = Some (ctx_Err ctx) \<and>
        (\<exists>sg. session_trace ?new =
           [EvNewSession None, EvSessionRun t d c RunCancelled, EvSignalKill sg, EvSessionClose])"
    if m: "EvSessionRun t d c RunCancelled \<in> set ?new" for t d c
  proof -
    from select_answered_mem [OF sa m] have nd: "ctx_done_by ctx (t + d)"
      by simp
    from m have ms: "EvSessionRun t d c RunCancelled \<in> set (session_trace ?new)"
      by (simp add: mem_session_trace)
    then have "session_trace ?new \<noteq> []"
      by (metis empty_iff empty_set)
    with o have so: "session_outcome ctx step (session_trace ?new) st r"
      by simp
    from so ms have "st = None \<and> r = Some (ctx_Err ctx) \<and>
        (\<exists>sg. session_trace ?new =
           [EvNewSession None, EvSessionRun t d c RunCancelled, EvSignalKill sg, EvSessionClose])"
      unfolding session_outcome_def by auto
    with nd show ?thesis by simp
  qed
  have b: "\<exists>t d c. EvSessionRun t d c RunCancelled \<in> set ?new"
    if "EvSignalKill sg \<in> set ?new" for sg
  proof -
    from that have "EvSignalKill sg \<in> set (session_trace ?new)"
      by (simp add: mem_session_trace)
    with o obtain t d where
      "EvSessionRun t d (command_line step) RunCancelled \<in> set (session_trace ?new)"
      unfolding session_outcome_def by auto
    then show ?thesis
      by (auto simp: mem_session_trace)
  qed
  have c: "\<exists>t d c oc. EvSessionRun t d c oc \<in> set ?new" if "EvNewSession None \<in> set ?new"
  proof -
    from that have "EvNewSession None \<in> set (session_trace ?new)"
      by (simp add: mem_session_trace)
    with o obtain t d oc where
      "EvSessionRun t d (command_line step) oc \<in> set (session_trace ?new)"
      unfolding session_outcome_def by auto
    then show ?thesis
      by (auto simp: mem_session_trace)
  qed
  from ev sa a b c show ?thesis
    by blast
qed

theorem Run_cancelled_error_witness:
  "Run quiet_world marker_scripts cancel_soon engine0 spec7 step0 sys0 =
     (None, Some Canceled,
      snd (snd (Run quiet_world marker_scripts cancel_soon engine0 spec7 step0 sys0))) \<and>
   ctx_done_by cancel_soon (1000000000 + 1000000000) \<and>
   session_trace (new_events sys0
      (snd (snd (Run quiet_world marker_scripts cancel_soon engine0 spec7 step0 sys0)))) =
     [EvNewSession None,
      EvSessionRun 1000000000 1000000000 ''/bin/sh -e /tmp/drone/script'' RunCancelled,
      EvSignalKill None,
      EvSessionClose]"
proof -
  let ?s' = "snd (snd (Run quiet_world marker_scripts cancel_soon engine0 spec7 step0 sys0))"
  have m: "EvSessionRun 1000000000 1000000000 ''/bin/sh -e /tmp/drone/script'' RunCancelled
      \<in> set (new_events sys0 ?s')"
    unfolding cancelled_run by (simp add: new_events_def sys0_def)
  have tr: "session_trace (new_events sys0 ?s') =
     [EvNewSession None,
      EvSessionRun 1000000000 1000000000 ''/bin/sh -e /tmp/drone/script'' RunCancelled,
      EvSignalKill None,
      EvSessionClose]"
    unfolding cancelled_run by (simp add: new_events_def sys0_def)
  from Run_cancelled_error [OF cancelled_run] m
  have "ctx_done_by cancel_soon (1000000000 + 1000000000)"
    unfolding cancelled_run snd_conv by blast
  with tr show ?thesis
    by (simp add: cancelled_run)
qed

section \<open>Run: the uploaded script\<close>

text \<open>Claim C8. \<^verbatim>\<open>Run\<close> either returns an error without having made a file transfer
  client, and then nothing was uploaded; or it has made one, and the calls of the file
  stager carry out the uploads of the step in order: for every file of the step, in
  list order, the file is created at its path, the bytes written to it are the output of
  \<^verbatim>\<open>writeWorkdir\<close> for the step's working directory, followed by the output of
  \<^verbatim>\<open>writeSecrets\<close> for the platform and the step's secrets, followed by the output of
  \<^verbatim>\<open>writeEnviron\<close> for the platform and the step's environment, followed by the file's
  own bytes; then the file's mode is set and the file closed. The first call that fails
  ends the uploads, \<^verbatim>\<open>Run\<close> returns its error and no state, and no session is opened;
  a session is opened exactly when every upload has succeeded.\<close>

theorem Run_uploaded_bytes:
  assumes "Run w g ctx e spec step s = (st, r, s')"
  shows "events s' = events s @ new_events s s' \<and>
     (stager_calls (new_events s s') = [] \<and> session_trace (new_events s s') = [] \<and>
        st = None \<and> r \<noteq> None \<and> (\<forall>c. EvSftpNewClient c None \<notin> set (new_events s s')) \<or>
      (\<exists>c. EvSftpNewClient c None \<in> set (new_events s s')) \<and>
      (\<exists>ru. staged (run_calls g spec step) (stager_calls (new_events s s')) ru \<and>
         (\<forall>err. ru = Some err \<longrightarrow> r = Some err \<and> st = None) \<and>
         (ru = None \<longleftrightarrow> session_trace (new_events s s') \<noteq> []))) \<and>
     run_calls g spec step =
       concat (map (\<lambda>f.
         [Create (File_Path f),
          Write (File_Path f)
            (writeWorkdir g (Step_WorkingDir step)
             @ writeSecrets g (Platform_OS (Spec_Platform spec)) (Step_Secrets step)
             @ writeEnviron g (Platform_OS (Spec_Platform spec)) (Step_Envs step)
             @ File_Data f),
          FileChmod (File_Path f) (File_Mode f),
          FileClose (File_Path f)]) (Step_Files step))"
proof -
  let ?new = "new_events s s'"
  from Run_trace [OF assms] obtain evs where ev: "events s' = events s @ evs"
    and o: "stager_calls evs = [] \<and> session_trace evs = [] \<and> st = None \<and> r \<noteq> None \<and>
              (\<forall>c. EvSftpNewClient c None \<notin> set evs) \<or>
            (\<exists>c. EvSftpNewClient c None \<in> set evs) \<and>
            (\<exists>ru. staged (run_calls g spec step) (stager_calls evs) ru \<and>
              (case ru of
                 Some e \<Rightarrow> r = Some e \<and> st = None \<and> session_trace evs = []
               | None \<Rightarrow> session_outcome ctx step (session_trace evs) st r))"
    by blast
  from ev have ne: "?new = evs"
    by (rule new_events_append)
  have so: "session_outcome ctx step tr st r \<Longrightarrow> tr \<noteq> []" for tr
    unfolding session_outcome_def by auto
  have 1: "events s' = events s @ ?new"
    using ev ne by simp
  have "stager_calls evs = [] \<and> session_trace evs = [] \<and>
        st = None \<and> r \<noteq> None \<and> (\<forall>c. EvSftpNewClient c None \<notin> set evs) \<or>
      (\<exists>c. EvSftpNewClient c None \<in> set evs) \<and>
      (\<exists>ru. staged (run_calls g spec step) (stager_calls evs) ru \<and>
         (\<forall>err. ru = Some err \<longrightarrow> r = Some err \<and> st = None) \<and>
         (ru = None \<longleftrightarrow> session_trace evs \<noteq> []))"
    using o
  proof
    assume "stager_calls evs = [] \<and> session_trace evs = [] \<and> st = None \<and> r \<noteq> None \<and>
              (\<forall>c. EvSftpNewClient c None \<notin> set evs)"
    then show ?thesis by simp
  next
    assume "(\<exists>c. EvSftpNewClient c None \<in> set evs) \<and>
            (\<exists>ru. staged (run_calls g spec step) (stager_calls evs) ru \<and>
              (case ru of
                 Some e \<Rightarrow> r = Some e \<and> st = None \<and> session_trace evs = []
               | None \<Rightarrow> session_outcome ctx step (session_trace evs) st r))"
    then obtain ru where f: "\<exists>c. EvSftpNewClient c None \<in> set evs"
      and st: "staged (run_calls g spec step) (stager_calls evs) ru"
      and c: "case ru of
                 Some e \<Rightarrow> r = Some e \<and> st = None \<and> session_trace evs = []
               | None \<Rightarrow> session_outcome ctx step (session_trace evs) st r"
      by blast
    have "(\<forall>err. ru = Some err \<longrightarrow> r = Some err \<and> st = None) \<and>
         (ru = None \<longleftrightarrow> session_trace evs \<noteq> [])"
    proof (cases ru)
      case None
      with c have "session_outcome ctx step (session_trace evs) st r"
        by simp
      then have "session_trace evs \<noteq> []"
        by (rule so)
      with None show ?thesis by simp
    next
      case (Some err)
      with c show ?thesis by simp
    qed
    with st have "\<exists>ru. staged (run_calls g spec step) (stager_calls evs) ru \<and>
         (\<forall>err. ru = Some err \<longrightarrow> r = Some err \<and> st = None) \<and>
         (ru = None \<longleftrightarrow> session_trace evs \<noteq> [])"
      by (intro exI [of _ ru] conjI) simp_all
    with f show ?thesis
      by (rule disjI2 [OF conjI])
  qed
  then have 2: "stager_calls ?new = [] \<and> session_trace ?new = [] \<and>
        st = None \<and> r \<noteq> None \<and> (\<forall>c. EvSftpNewClient c None \<notin> set ?new) \<or>
      (\<exists>c. EvSftpNewClient c None \<in> set ?new) \<and>
      (\<exists>ru. staged (run_calls g spec step) (stager_calls ?new) ru \<and>
         (\<forall>err. ru = Some err \<longrightarrow> r = Some err \<and> st = None) \<and>
         (ru = None \<longleftrightarrow> session_trace ?new \<noteq> []))"
    unfolding ne .
  have 3: "run_calls g spec step =
       concat (map (\<lambda>f.
         [Create (File_Path f),
          Write (File_Path f)
            (writeWorkdir g (Step_WorkingDir step)
             @ writeSecrets g (Platform_OS (Spec_Platform spec)) (Step_Secrets step)
             @ writeEnviron g (Platform_OS (Spec_Platform spec)) (Step_Envs step)
             @ File_Data f),
          FileChmod (File_Path f) (File_Mode f),
          FileClose (File_Path f)]) (Step_Files step))"
    unfolding run_calls_def upload_calls_def by simp
  from 1 2 3 show ?thesis
    by (intro conjI)
qed

theorem Run_uploaded_bytes_witness:
  "stager_calls (new_events sys0
      (snd (snd (Run quiet_world marker_scripts background engine0 spec7 step0 sys0)))) =
     [(Create ''/tmp/drone/script'', None),
      (Write ''/tmp/drone/script''
         ''[workdir /tmp/drone-temp][secrets linux][environ linux]echo hello'', None),
      (FileChmod ''/tmp/drone/script'' 448, None),
      (FileClose ''/tmp/drone/script'', None)] \<and>
   staged (run_calls marker_scripts spec7 step0)
     (stager_calls (new_events sys0
        (snd (snd (Run quiet_world marker_scripts background engine0 spec7 step0 sys0)))))
     None \<and>
   run_calls marker_scripts spec7 step0 =
     [Create ''/tmp/drone/script'',
      Write ''/tmp/drone/script''
        ''[workdir /tmp/drone-temp][secrets linux][environ linux]echo hello'',
      FileChmod ''/tmp/drone/script'' 448,
      FileClose ''/tmp/drone/script'']"
proof -
  let ?s' = "snd (snd (Run quiet_world marker_scripts background engine0 spec7 step0 sys0))"
  have sc: "stager_calls (new_events sys0 ?s') =
     [(Create ''/tmp/drone/script'', None),
      (Write ''/tmp/drone/script''
         ''[workdir /tmp/drone-temp][secrets linux][environ linux]echo hello'', None),
      (FileChmod ''/tmp/drone/script'' 448, None),
      (FileClose ''/tmp/drone/script'', None)]"
    unfolding quiet_run by (simp add: new_events_def sys0_def)
  have tr: "session_trace (new_events sys0 ?s') \<noteq> []"
    unfolding quiet_run by (simp add: new_events_def sys0_def)
  from Run_uploaded_bytes [OF quiet_run]
  have u: "(stager_calls (new_events sys0 ?s') = [] \<and> session_trace (new_events sys0 ?s') = [] \<and>
        Some \<lparr>ExitCode = 0, Exited = True, OOMKilled = False\<rparr> = None \<and> None \<noteq> None \<and>
        (\<forall>c. EvSftpNewClient c None \<notin> set (new_events sys0 ?s')) \<or>
      (\<exists>c. EvSftpNewClient c None \<in> set (new_events sys0 ?s')) \<and>
      (\<exists>ru. staged (run_calls marker_scripts spec7 step0) (stager_calls (new_events sys0 ?s')) ru \<and>
         (\<forall>err. ru = Some err \<longrightarrow> None = Some err \<and>
            Some \<lparr>ExitCode = 0, Exited = True, OOMKilled = False\<rparr> = None) \<and>
         (ru = None \<longleftrightarrow> session_trace (new_events sys0 ?s') \<noteq> [])))"
    and pl: "run_calls marker_scripts spec7 step0 =
       concat (map (\<lambda>f.
         [Create (File_Path f),
          Write (File_Path f)
            (writeWorkdir marker_scripts (Step_WorkingDir step0)
             @ writeSecrets marker_scripts (Platform_OS (Spec_Platform spec7)) (Step_Secrets step0)
             @ writeEnviron marker_scripts (Platform_OS (Spec_Platform spec7)) (Step_Envs step0)
             @ File_Data f),
          FileChmod (File_Path f) (File_Mode f),
          FileClose (File_Path f)]) (Step_Files step0))"
    unfolding quiet_run snd_conv by blast+
  from u tr have stg: "staged (run_calls marker_scripts spec7 step0)
      (stager_calls (new_events sys0 ?s')) None"
    by auto
  from pl have pl': "run_calls marker_scripts spec7 step0 =
     [Create ''/tmp/drone/script'',
      Write ''/tmp/drone/script''
        ''[workdir /tmp/drone-temp][secrets linux][environ linux]echo hello'',
      FileChmod ''/tmp/drone/script'' 448,
      FileClose ''/tmp/drone/script'']"
    by (simp add: marker_scripts_def spec7_def spec0_def step0_def)
  from sc stg pl' show ?thesis
    by (intro conjI)
qed

section \<open>Run: the command line\<close>

text \<open>Claim C10. \<^verbatim>\<open>Run\<close> hands at most one command line to the session, and exactly
  one when the session was opened: the step's command, one space, and the arguments
  of the step joined by single spaces. With no argument this is the command followed
  by one space; with the arguments \<open>a # as\<close> it is the command, a space, \<open>a\<close>, and
  every further argument preceded by a space.\<close>

theorem Run_command_line:
  assumes "Run w g ctx e spec step s = (st, r, s')"
  shows "events s' = events s @ new_events s s' \<and>
     (commands (new_events s s') = [] \<or>
      commands (new_events s s') =
        [Step_Command step @ '' '' @ strings_Join (Step_Args step) '' '']) \<and>
     (EvNewSession None \<in> set (new_events s s') \<longrightarrow>
        commands (new_events s s') =
          [Step_Command step @ '' '' @ strings_Join (Step_Args step) '' '']) \<and>
     (Step_Args step = [] \<longrightarrow>
        Step_Command step @ '' '' @ strings_Join (Step_Args step) '' '' =
        Step_Command step @ '' '') \<and>
     (\<forall>a as. Step_Args step = a # as \<longrightarrow>
        Step_Command step @ '' '' @ strings_Join (Step_Args step) '' '' =
        Step_Command step @ '' '' @ a @ concat (map (\<lambda>x. '' '' @ x) as))"
proof -
  let ?new = "new_events s s'"
  let ?cmd = "Step_Command step @ '' '' @ strings_Join (Step_Args step) '' ''"
  from Run_session_cases [OF assms] have ev: "events s' = events s @ ?new"
    and o: "session_trace ?new = [] \<and> st = None \<and> r \<noteq> None \<or>
          session_outcome ctx step (session_trace ?new) st r"
    by simp_all
  have cs: "commands ?new = commands (session_trace ?new)"
    by (simp add: commands_session_trace)
  have 1: "commands ?new = [] \<or> commands ?new = [?cmd]"
    unfolding cs using o unfolding session_outcome_def command_line_def by auto
  have 2: "commands ?new = [?cmd]" if "EvNewSession None \<in> set ?new"
  proof -
    from that have "EvNewSession None \<in> set (session_trace ?new)"
      by (simp add: mem_session_trace)
    with o show ?thesis
      unfolding cs session_outcome_def command_line_def by auto
  qed
  have 3: "Step_Args step = [] \<longrightarrow> ?cmd = Step_Command step @ '' ''"
    by simp
  have 4: "\<forall>a as. Step_Args step = a # as \<longrightarrow>
        ?cmd = Step_Command step @ '' '' @ a @ concat (map (\<lambda>x. '' '' @ x) as)"
  proof (intro allI impI)
    fix a as assume "Step_Args step = a # as"
    then show "?cmd = Step_Command step @ '' '' @ a @ concat (map (\<lambda>x. '' '' @ x) as)"
      by (simp only: strings_Join_Cons)
  qed
  from ev 1 2 3 4 show ?thesis
    by blast
qed

theorem Run_command_line_witness:
  "commands (new_events sys0
      (snd (snd (Run quiet_world marker_scripts background engine0 spec7 step0 sys0)))) =
     [''/bin/sh -e /tmp/drone/script''] \<and>
   commands (new_events sys0
      (snd (snd (Run quiet_world marker_scripts background engine0 spec7
                   (step0\<lparr>Step_Args := []\<rparr>) sys0)))) =
     [''/bin/sh '']"
proof -
  let ?s1 = "snd (snd (Run quiet_world marker_scripts background engine0 spec7 step0 sys0))"
  let ?s2 = "snd (snd (Run quiet_world marker_scripts background engine0 spec7
                   (step0\<lparr>Step_Args := []\<rparr>) sys0))"
  have m1: "EvNewSession None \<in> set (new_events sys0 ?s1)"
    unfolding quiet_run by (simp add: new_events_def sys0_def)
  have m2: "EvNewSession None \<in> set (new_events sys0 ?s2)"
    unfolding no_args_run by (simp add: new_events_def sys0_def)
  from Run_command_line [OF quiet_run] m1
  have "commands (new_events sys0 ?s1) =
      [Step_Command step0 @ '' '' @ strings_Join (Step_Args step0) '' '']"
    unfolding quiet_run snd_conv by blast
  then have c1: "commands (new_events sys0 ?s1) = [''/bin/sh -e /tmp/drone/script'']"
    by (simp add: step0_def)
  from Run_command_line [OF no_args_run] m2
  have "commands (new_events sys0 ?s2) =
      [Step_Command (step0\<lparr>Step_Args := []\<rparr>) @ '' '' @
       strings_Join (Step_Args (step0\<lparr>Step_Args := []\<rparr>)) '' '']"
    unfolding no_args_run snd_conv by blast
  then have c2: "commands (new_events sys0 ?s2) = [''/bin/sh '']"
    by (simp add: step0_def)
  from c1 c2 show ?thesis
    by (rule conjI)
qed

end
